theory Spec2Isabelle
  imports Complex_Main "HOL-Library.Sublist" "HOL-Library.Multiset"
begin

section \<open>Data model (services/aura/models.py)\<close>

text \<open>
  Python floats are modelled as \<open>real\<close> (the operations on them exact, except in the
  lattice coherence, where the sum and the quotient are rounded to double), Python ints as
  \<open>int\<close>, strings as \<open>string\<close>.
  A value of type \<open>Any\<close> is a \<open>pyval\<close>.  Wall-clock timestamps
  (\<open>datetime.utcnow().isoformat()\<close>) are read by the caller and passed in as the
  parameter \<open>now\<close>.  An exception is a value of type \<open>error\<close>: a pydantic validation
  error, or an error raised by an external service (the completion service, the
  transport).  Only exceptions derived from \<open>Exception\<close> are modelled, which are the ones
  the \<open>except Exception\<close> handlers of the code catch.
\<close>

datatype AgentType = ARCHITECT | ENGINEER | REVIEWER | DEBUGGER | RESEARCH | SYNTHESIZER

datatype AgentStatus = IDLE | ACTIVE | WORKING | COMPLETED | ERROR

datatype MessageRole = USER | ASSISTANT | SYSTEM | AGENT

datatype pyval =
    PyNone
  | PyBool bool
  | PyInt int
  | PyFloat real
  | PyStr string
  | PyList "pyval list"
  | PyDict "(string \<times> pyval) list"

datatype error = ValidationError string | ServiceError string

record AgentVector =
  role :: AgentType
  weight :: real
  gamma_resistance :: real
  w2_optimization :: real

record AgentMemory =
  short_term :: "string list"
  long_term :: "string \<rightharpoonup> pyval"
  working_context :: "string option"
  embeddings :: "real list option"

record AgentTrace =
  trace_timestamp :: string
  trace_agent_id :: string
  trace_agent_type :: AgentType
  action :: string
  input_data :: "(string \<times> pyval) list option"
  output_data :: "(string \<times> pyval) list option"
  trace_error :: "string option"
  trace_metrics :: "(string \<times> real) list option"

section \<open>The agent base class (services/aura/base_agent.py)\<close>

record BaseAgent =
  agent_id :: string
  agent_type :: AgentType
  agent_session_id :: "string option"
  status :: AgentStatus
  vector :: AgentVector
  memory :: AgentMemory
  traces :: "AgentTrace list"
  created_at :: string
  updated_at :: string

text \<open>\<open>BaseAgent.__init__\<close>; the identifier (given or drawn from uuid4) is the parameter \<open>aid\<close>.\<close>

definition init_agent :: "string \<Rightarrow> AgentType \<Rightarrow> string option \<Rightarrow> string \<Rightarrow> BaseAgent" where
  "init_agent aid ty sid now =
     \<lparr> agent_id = aid,
       agent_type = ty,
       agent_session_id = sid,
       status = IDLE,
       vector = \<lparr> role = ty, weight = 1, gamma_resistance = 8 / 10, w2_optimization = 0 \<rparr>,
       memory = \<lparr> short_term = [], long_term = Map.empty, working_context = None,
                  embeddings = None \<rparr>,
       traces = [],
       created_at = now,
       updated_at = now \<rparr>"

text \<open>Python's \<open>xs[-n:]\<close> for a positive \<open>n\<close>: the whole list when it has at most \<open>n\<close> items.\<close>

definition last_n :: "nat \<Rightarrow> 'a list \<Rightarrow> 'a list" where
  "last_n n xs = drop (length xs - n) xs"

definition add_trace ::
  "string \<Rightarrow> string \<Rightarrow> (string \<times> pyval) list option \<Rightarrow> (string \<times> pyval) list option \<Rightarrow>
   string option \<Rightarrow> (string \<times> real) list option \<Rightarrow> BaseAgent \<Rightarrow> BaseAgent" where
  "add_trace now act inp outp err mets a =
     a\<lparr> traces := traces a @
          [\<lparr> trace_timestamp = now, trace_agent_id = agent_id a, trace_agent_type = agent_type a,
             action = act, input_data = inp, output_data = outp, trace_error = err,
             trace_metrics = mets \<rparr>] \<rparr>"

definition update_memory ::
  "string \<Rightarrow> string list option \<Rightarrow> (string \<rightharpoonup> pyval) option \<Rightarrow> string option \<Rightarrow>
   BaseAgent \<Rightarrow> BaseAgent" where
  "update_memory now st lt wc a =
     (let m0 = memory a;
          m1 = (case st of None \<Rightarrow> m0
                | Some xs \<Rightarrow> m0\<lparr> short_term := last_n 10 (short_term m0 @ xs) \<rparr>);
          m2 = (case lt of None \<Rightarrow> m1
                | Some d \<Rightarrow> m1\<lparr> long_term := long_term m1 ++ d \<rparr>);
          m3 = (case wc of None \<Rightarrow> m2
                | Some c \<Rightarrow> m2\<lparr> working_context := Some c \<rparr>)
      in a\<lparr> memory := m3, updated_at := now \<rparr>)"

definition update_w2_optimization :: "string \<Rightarrow> real \<Rightarrow> BaseAgent \<Rightarrow> BaseAgent" where
  "update_w2_optimization now score a =
     a\<lparr> vector := (vector a)\<lparr> w2_optimization := max 0 (min score 1) \<rparr>, updated_at := now \<rparr>"

definition reset :: "string \<Rightarrow> BaseAgent \<Rightarrow> BaseAgent" where
  "reset now a =
     a\<lparr> status := IDLE,
        memory := \<lparr> short_term = [], long_term = Map.empty, working_context = None,
                    embeddings = None \<rparr>,
        traces := [],
        vector := (vector a)\<lparr> w2_optimization := 0 \<rparr>,
        updated_at := now \<rparr>"

text \<open>
  The operations through which the code changes an agent after its construction: the
  methods of the base class and the assignment to \<open>self.status\<close> made by every
  \<open>process\<close>.  Each carries the timestamp read during the call.
\<close>

datatype agent_call =
    Update_memory string "string list option" "(string \<rightharpoonup> pyval) option" "string option"
  | Update_w2_optimization string real
  | Add_trace string string "(string \<times> pyval) list option" "(string \<times> pyval) list option"
      "string option" "(string \<times> real) list option"
  | Set_status AgentStatus
  | Reset string

fun apply_call :: "agent_call \<Rightarrow> BaseAgent \<Rightarrow> BaseAgent" where
  "apply_call (Update_memory now st lt wc) a = update_memory now st lt wc a"
| "apply_call (Update_w2_optimization now score) a = update_w2_optimization now score a"
| "apply_call (Add_trace now act inp outp err mets) a = add_trace now act inp outp err mets a"
| "apply_call (Set_status s) a = a\<lparr> status := s \<rparr>"
| "apply_call (Reset now) a = reset now a"

definition apply_calls :: "agent_call list \<Rightarrow> BaseAgent \<Rightarrow> BaseAgent" where
  "apply_calls cs a = fold apply_call cs a"

text \<open>The strings a sequence of calls appends to the short-term memory, in call order.\<close>

fun appended :: "agent_call list \<Rightarrow> string list" where
  "appended [] = []"
| "appended (Update_memory now (Some xs) lt wc # cs) = xs @ appended cs"
| "appended (c # cs) = appended cs"

fun only_update_memory :: "agent_call list \<Rightarrow> bool" where
  "only_update_memory [] = True"
| "only_update_memory (Update_memory now st lt wc # cs) = only_update_memory cs"
| "only_update_memory (c # cs) = False"

definition unit_interval :: "real \<Rightarrow> bool" where
  "unit_interval x = (0 \<le> x \<and> x \<le> 1)"

definition vector_ok :: "AgentVector \<Rightarrow> bool" where
  "vector_ok v = (unit_interval (weight v) \<and> unit_interval (gamma_resistance v) \<and>
                  unit_interval (w2_optimization v))"

section \<open>Messages, requests and responses (services/aura/models.py)\<close>

record Message =
  msg_role :: MessageRole
  content :: string
  msg_agent_id :: "string option"
  msg_agent_type :: "AgentType option"
  metadata :: "(string \<times> pyval) list"
  msg_timestamp :: string

record AuraRequest =
  prompt :: string
  req_session_id :: "string option"
  agents_enabled :: "AgentType list"
  max_iterations :: int
  temperature :: real
  stream :: bool
  include_traces :: bool
  quantum_enhanced :: bool

record AgentResponse =
  resp_agent_id :: string
  resp_agent_type :: AgentType
  response :: string
  confidence :: real
  metrics :: "(string \<times> real) list option"
  trace :: "AgentTrace option"

text \<open>
  The constructor of \<open>AgentResponse\<close>: pydantic checks \<open>Field(ge=0.0, le=1.0)\<close> of the
  confidence and raises a validation error outside that range.
\<close>

definition new_AgentResponse ::
  "string \<Rightarrow> AgentType \<Rightarrow> string \<Rightarrow> real \<Rightarrow> (string \<times> real) list option \<Rightarrow> AgentTrace option \<Rightarrow>
   error + AgentResponse" where
  "new_AgentResponse aid ty txt conf mets tr =
     (if 0 \<le> conf \<and> conf \<le> 1
      then Inr \<lparr> resp_agent_id = aid, resp_agent_type = ty, response = txt, confidence = conf,
                 metrics = mets, trace = tr \<rparr>
      else Inl (ValidationError ''confidence''))"

record AuraResponse =
  aura_session_id :: string
  final_response :: string
  aura_agent_responses :: "AgentResponse list"
  aura_total_iterations :: nat
  execution_time_ms :: int
  consciousness_metrics :: "(string \<times> real) list option"
  quantum_backend_used :: "string option"
  aura_traces :: "AgentTrace list option"

record AgentNode =
  node_agent_id :: string
  node_agent_type :: AgentType
  node_status :: AgentStatus
  node_vector :: AgentVector
  position :: "(string \<times> real) list"
  connections :: "string list"
  last_activity :: string

record AgentLattice =
  lattice_session_id :: string
  nodes :: "AgentNode list"
  active_agents :: nat
  total_interactions :: nat
  lattice_coherence :: real
  lattice_timestamp :: string

text \<open>The \<open>.value\<close> of an agent type.\<close>

fun agent_type_value :: "AgentType \<Rightarrow> string" where
  "agent_type_value ARCHITECT = ''architect''"
| "agent_type_value ENGINEER = ''engineer''"
| "agent_type_value REVIEWER = ''reviewer''"
| "agent_type_value DEBUGGER = ''debugger''"
| "agent_type_value RESEARCH = ''research''"
| "agent_type_value SYNTHESIZER = ''synthesizer''"

section \<open>The synthesizer (services/aura/agents/synthesizer_agent.py)\<close>

text \<open>One entry of the \<open>agent_responses\<close> list of the synthesis context.\<close>

record agent_output =
  out_agent_type :: string
  out_response :: string
  out_confidence :: real
  out_metrics :: "(string \<times> real) list option"

text \<open>
  The context dictionary handed to the synthesizer: the value under the key
  \<open>agent_responses\<close> (absent or a list) and the remaining entries.
\<close>

record synthesis_context =
  ctx_agent_responses :: "agent_output list option"
  ctx_rest :: "(string \<times> pyval) list"

text \<open>
  The completion service is a port.  \<open>_call_claude\<close> is modelled by its outcome: the
  parameter of type \<open>completion\<close> receives the data the prompt is rendered from (the most
  recent user message, the task, the agent outputs, the rest of the context) and
  returns the text or the error raised.
\<close>

type_synonym completion =
  "string option \<Rightarrow> string \<Rightarrow> agent_output list \<Rightarrow> (string \<times> pyval) list \<Rightarrow> error + string"

fun show_nat :: "nat \<Rightarrow> string" where
  "show_nat n =
     (if n < 10 then [''0123456789'' ! n]
      else show_nat (n div 10) @ [''0123456789'' ! (n mod 10)])"

declare show_nat.simps [simp del]

fun error_text :: "error \<Rightarrow> string" where
  "error_text (ValidationError s) = s"
| "error_text (ServiceError s) = s"

text \<open>\<open>next((msg for msg in reversed(history) if msg.role.value == "user"), None)\<close>\<close>

definition last_user_msg :: "Message list \<Rightarrow> Message option" where
  "last_user_msg history = List.find (\<lambda>m. msg_role m = USER) (rev history)"

text \<open>Lines 133 to 137 of the synthesizer: the quality for a number of agent outputs.\<close>

definition synthesis_quality :: "nat \<Rightarrow> real" where
  "synthesis_quality n = (if 0 < n then min (95 / 100) (7 / 10 + real n * (5 / 100)) else 9 / 10)"

text \<open>\<open>context.get("agent_responses", []) if context else []\<close>\<close>

definition agent_outputs_of :: "synthesis_context option \<Rightarrow> agent_output list" where
  "agent_outputs_of context =
     (case context of None \<Rightarrow> []
      | Some c \<Rightarrow> (case ctx_agent_responses c of None \<Rightarrow> [] | Some outs \<Rightarrow> outs))"

text \<open>A completion service that answers every call with the same text, and one that always fails.\<close>

definition constant_completion :: "string \<Rightarrow> completion" where
  "constant_completion txt user_msg task outs rest = Inr txt"

definition failing_completion :: "string \<Rightarrow> completion" where
  "failing_completion msg user_msg task outs rest = Inl (ServiceError msg)"

definition synthesizer_failed :: "string \<Rightarrow> error \<Rightarrow> BaseAgent \<Rightarrow> BaseAgent \<times> (error + AgentResponse)" where
  "synthesizer_failed now e a =
     (add_trace now ''synthesis_error'' None None (Some (error_text e)) None (a\<lparr> status := ERROR \<rparr>),
      Inl e)"

definition synthesizer_process ::
  "completion \<Rightarrow> string \<Rightarrow> real \<Rightarrow> string \<Rightarrow> synthesis_context option \<Rightarrow> Message list \<Rightarrow>
   BaseAgent \<Rightarrow> BaseAgent \<times> (error + AgentResponse)" where
  "synthesizer_process llm now execution_time task context conversation_history a =
     (let a1 = a\<lparr> status := WORKING \<rparr>;
          user_msg = map_option content (last_user_msg conversation_history);
          agent_outputs = agent_outputs_of context;
          rest = (case context of None \<Rightarrow> [] | Some c \<Rightarrow> ctx_rest c);
          a2 = update_memory now
                 (Some [''Synthesizing: '' @ show_nat (length agent_outputs) @ '' agent outputs''])
                 None (Some task) a1;
          a3 = add_trace now ''start_synthesis''
                 (Some [(''task'', PyStr task), (''agent_count'', PyInt (int (length agent_outputs)))])
                 None None None a2
      in case llm user_msg task agent_outputs rest of
           Inl e \<Rightarrow>
             synthesizer_failed now e
               (add_trace now ''call_claude'' (Some [(''messages'', PyNone)]) None
                  (Some (error_text e)) None a3)
         | Inr response_text \<Rightarrow>
             (let quality = synthesis_quality (length agent_outputs);
                  a4 = update_w2_optimization now quality a3;
                  a5 = add_trace now ''complete_synthesis'' None
                         (Some [(''quality'', PyFloat quality),
                                (''agent_count'', PyInt (int (length agent_outputs)))])
                         None
                         (Some [(''execution_time'', execution_time), (''quality'', quality)]) a4;
                  a6 = a5\<lparr> status := COMPLETED \<rparr>
              in case new_AgentResponse (agent_id a6) (agent_type a6) response_text quality
                        (Some [(''execution_time'', execution_time), (''quality'', quality),
                               (''agents_synthesized'', real (length agent_outputs)),
                               (''response_length'', real (length response_text))])
                        (if traces a6 = [] then None else Some (last (traces a6))) of
                   Inl e \<Rightarrow> synthesizer_failed now e a6
                 | Inr r \<Rightarrow> (a6, Inr r)))"

section \<open>The orchestrator (services/aura/orchestrator.py)\<close>

text \<open>
  \<open>self.agents\<close> is a dictionary holding all six agent types from construction on, in the
  order of \<open>agent_types\<close>; it is modelled as a function together with that key order.
\<close>

record AuraOrchestrator =
  session_id :: string
  user_id :: "string option"
  agents :: "AgentType \<Rightarrow> BaseAgent"
  conversation_history :: "Message list"
  total_iterations :: nat

definition agent_types :: "AgentType list" where
  "agent_types = [ARCHITECT, ENGINEER, REVIEWER, DEBUGGER, RESEARCH, SYNTHESIZER]"

text \<open>\<open>AuraOrchestrator.__init__\<close>; \<open>ids\<close> gives the identifier generated for each agent.\<close>

definition init_orchestrator ::
  "(AgentType \<Rightarrow> string) \<Rightarrow> string \<Rightarrow> string \<Rightarrow> string option \<Rightarrow> AuraOrchestrator" where
  "init_orchestrator ids now sid uid =
     \<lparr> session_id = sid, user_id = uid,
       agents = (\<lambda>t. init_agent (ids t) t (Some sid) now),
       conversation_history = [], total_iterations = 0 \<rparr>"

subsection \<open>Workflow classification\<close>

text \<open>
  \<open>str.lower\<close> on ASCII text: the letters A to Z are mapped to a to z, every other
  character is kept.
\<close>

definition lower_char :: "char \<Rightarrow> char" where
  "lower_char c =
     (case map_of (zip ''ABCDEFGHIJKLMNOPQRSTUVWXYZ'' ''abcdefghijklmnopqrstuvwxyz'') c of
        None \<Rightarrow> c | Some d \<Rightarrow> d)"

definition lower :: "string \<Rightarrow> string" where
  "lower s = map lower_char s"

text \<open>Python's \<open>kw in s\<close> on strings: \<open>kw\<close> occurs in \<open>s\<close> as a contiguous substring.\<close>

fun contains :: "string \<Rightarrow> string \<Rightarrow> bool" where
  "contains kw [] = (kw = [])"
| "contains kw (c # cs) = (prefix kw (c # cs) \<or> contains kw cs)"

text \<open>\<open>any(keyword in s for keyword in kws)\<close>\<close>

definition any_keyword :: "string list \<Rightarrow> string \<Rightarrow> bool" where
  "any_keyword kws s = list_ex (\<lambda>kw. contains kw s) kws"

definition debugging_keywords :: "string list" where
  "debugging_keywords = [''error'', ''bug'', ''debug'', ''fix'', ''broken'', ''failing'']"

definition review_keywords :: "string list" where
  "review_keywords = [''review'', ''check'', ''audit'', ''improve'']"

definition research_keywords :: "string list" where
  "research_keywords = [''how to'', ''what is'', ''explain'', ''research'', ''find'']"

definition determine_workflow :: "AuraRequest \<Rightarrow> AgentType list" where
  "determine_workflow request =
     (let prompt_lower = lower (prompt request)
      in if any_keyword debugging_keywords prompt_lower then [DEBUGGER, ENGINEER, REVIEWER]
         else if any_keyword review_keywords prompt_lower then [REVIEWER, ENGINEER]
         else if any_keyword research_keywords prompt_lower then [RESEARCH, ARCHITECT]
         else [ARCHITECT, ENGINEER, REVIEWER])"

subsection \<open>Context and stopping policy\<close>

record previous_response =
  prev_agent_type :: string
  prev_response :: string
  prev_confidence :: real

record agent_context =
  original_prompt :: string
  context_session_id :: string
  previous_responses :: "previous_response list"

definition prepare_context ::
  "AuraOrchestrator \<Rightarrow> AuraRequest \<Rightarrow> AgentResponse list \<Rightarrow> agent_context" where
  "prepare_context orch request agent_responses =
     \<lparr> original_prompt = prompt request,
       context_session_id = session_id orch,
       previous_responses =
         map (\<lambda>resp. \<lparr> prev_agent_type = agent_type_value (resp_agent_type resp),
                        prev_response = response resp,
                        prev_confidence = confidence resp \<rparr>)
             (last_n 3 agent_responses) \<rparr>"

definition should_continue :: "AgentResponse list \<Rightarrow> int \<Rightarrow> int \<Rightarrow> bool" where
  "should_continue agent_responses iteration max_iters =
     (if iteration \<ge> max_iters - 1 then False
      else if agent_responses = [] then True
      else if confidence (last agent_responses) \<ge> 9 / 10 then False
      else True)"

subsection \<open>The iteration loop\<close>

text \<open>
  The \<open>process\<close> methods of the five workflow agents call the completion service and
  derive their confidence from its text; they are a parameter of the orchestrator.
  A call receives the number of \<open>process\<close> calls made before it in this request, the agent
  object, the task, the context and the conversation history, and returns the agent as
  the call leaves it together with the response or the exception raised.
\<close>

type_synonym agent_process =
  "nat \<Rightarrow> BaseAgent \<Rightarrow> string \<Rightarrow> agent_context \<Rightarrow> Message list \<Rightarrow> BaseAgent \<times> (error + AgentResponse)"

text \<open>
  The state of one \<open>process_request\<close> call: the orchestrator, the local list
  \<open>agent_responses\<close>, and the called \<open>invoked\<close> of the agents whose \<open>process\<close> has been
  called, in call order (the called is not a variable of the code; it records the calls).
\<close>

record run_state =
  orch :: AuraOrchestrator
  agent_responses :: "AgentResponse list"
  invoked :: "AgentType list"

definition agent_message :: "string \<Rightarrow> AgentResponse \<Rightarrow> Message" where
  "agent_message now resp =
     \<lparr> msg_role = AGENT, content = response resp, msg_agent_id = Some (resp_agent_id resp),
       msg_agent_type = Some (resp_agent_type resp),
       metadata = [(''metrics'',
          (case metrics resp of None \<Rightarrow> PyNone
           | Some ms \<Rightarrow> PyDict (map (\<lambda>(k, v). (k, PyFloat v)) ms)))],
       msg_timestamp = now \<rparr>"

text \<open>The inner loop \<open>for agent_type in workflow\<close> with its \<open>try\<close>/\<open>except Exception\<close>.\<close>

fun run_agents :: "agent_process \<Rightarrow> string \<Rightarrow> AuraRequest \<Rightarrow> AgentType list \<Rightarrow> run_state \<Rightarrow> run_state" where
  "run_agents proc now request [] st = st"
| "run_agents proc now request (ty # workflow) st =
     (if ty \<notin> set (agents_enabled request) then run_agents proc now request workflow st
      else
        (let oc = orch st;
             ctx = prepare_context oc request (agent_responses st);
             (agent', res) =
               proc (length (invoked st)) (agents oc ty) (prompt request) ctx
                 (conversation_history oc);
             o1 = oc\<lparr> agents := (agents oc)(ty := agent') \<rparr>;
             called = invoked st @ [ty]
         in case res of
              Inl e \<Rightarrow> run_agents proc now request workflow (st\<lparr> orch := o1, invoked := called \<rparr>)
            | Inr resp \<Rightarrow>
                run_agents proc now request workflow
                  \<lparr> orch = o1\<lparr> conversation_history :=
                                  conversation_history o1 @ [agent_message now resp] \<rparr>,
                    agent_responses = agent_responses st @ [resp],
                    invoked = called \<rparr>))"

text \<open>\<open>range(n)\<close>\<close>

definition py_range :: "int \<Rightarrow> int list" where
  "py_range n = map int [0..<nat n]"

text \<open>The outer loop \<open>for iteration in range(request.max_iterations)\<close> with its \<open>break\<close>.\<close>

fun iterate ::
  "agent_process \<Rightarrow> string \<Rightarrow> AuraRequest \<Rightarrow> AgentType list \<Rightarrow> int list \<Rightarrow> run_state \<Rightarrow> run_state" where
  "iterate proc now request workflow [] st = st"
| "iterate proc now request workflow (iteration # rest) st =
     (let st1 = st\<lparr> orch := (orch st)\<lparr> total_iterations := total_iterations (orch st) + 1 \<rparr> \<rparr>;
          st2 = run_agents proc now request workflow st1
      in if \<not> should_continue (agent_responses st2) iteration (max_iterations request) then st2
         else iterate proc now request workflow rest st2)"

subsection \<open>\<open>process_request\<close>\<close>

text \<open>
  The quantum metrics service is a port: \<open>quantum\<close> is what \<open>_get_quantum_metrics\<close>
  returns (it catches every exception and then returns no metrics and no backend).
  \<open>elapsed_ms\<close> is the measured execution time.  The result holds the orchestrator as
  the call leaves it, the called of \<open>process\<close> calls, and the response or the exception
  that leaves \<open>process_request\<close>.
\<close>

record request_result =
  final_orch :: AuraOrchestrator
  calls :: "AgentType list"
  outcome :: "error + AuraResponse"

definition user_message :: "string \<Rightarrow> AuraRequest \<Rightarrow> Message" where
  "user_message now request =
     \<lparr> msg_role = USER, content = prompt request, msg_agent_id = None, msg_agent_type = None,
       metadata = [(''timestamp'', PyStr now)], msg_timestamp = now \<rparr>"

definition synthesis_context_of :: "AuraRequest \<Rightarrow> AgentResponse list \<Rightarrow> synthesis_context" where
  "synthesis_context_of request rs =
     \<lparr> ctx_agent_responses =
         Some (map (\<lambda>resp. \<lparr> out_agent_type = agent_type_value (resp_agent_type resp),
                              out_response = response resp,
                              out_confidence = confidence resp,
                              out_metrics = metrics resp \<rparr>) rs),
       ctx_rest = [(''original_prompt'', PyStr (prompt request))] \<rparr>"

definition process_request ::
  "agent_process \<Rightarrow> completion \<Rightarrow> (string \<times> real) list option \<times> string option \<Rightarrow> string \<Rightarrow> int \<Rightarrow>
   AuraRequest \<Rightarrow> AuraOrchestrator \<Rightarrow> request_result" where
  "process_request proc llm quantum now elapsed_ms request o0 =
     (let o1 = o0\<lparr> conversation_history := conversation_history o0 @ [user_message now request] \<rparr>;
          workflow = determine_workflow request;
          st = iterate proc now request workflow (py_range (max_iterations request))
                 \<lparr> orch = o1, agent_responses = [], invoked = [] \<rparr>;
          o2 = orch st;
          (synthesizer', synthesis) =
            synthesizer_process llm now (real_of_int elapsed_ms / 1000)
              ''Synthesize all agent outputs into final response''
              (Some (synthesis_context_of request (agent_responses st)))
              (conversation_history o2) (agents o2 SYNTHESIZER);
          o3 = o2\<lparr> agents := (agents o2)(SYNTHESIZER := synthesizer') \<rparr>;
          called = invoked st @ [SYNTHESIZER]
      in case synthesis of
           Inl e \<Rightarrow> \<lparr> final_orch = o3, calls = called, outcome = Inl e \<rparr>
         | Inr final \<Rightarrow>
             (let rs = agent_responses st @ [final];
                  (quantum_metrics, quantum_backend) =
                    (if quantum_enhanced request then quantum else (None, None));
                  aura_response =
                    \<lparr> aura_session_id = session_id o3,
                      final_response = response final,
                      aura_agent_responses = rs,
                      aura_total_iterations = total_iterations o3,
                      execution_time_ms = elapsed_ms,
                      consciousness_metrics = quantum_metrics,
                      quantum_backend_used = quantum_backend,
                      aura_traces =
                        (if include_traces request
                         then Some (concat (map (\<lambda>t. traces (agents o3 t)) agent_types))
                         else None) \<rparr>;
                  assistant_message =
                    \<lparr> msg_role = ASSISTANT, content = response final, msg_agent_id = None,
                      msg_agent_type = None,
                      metadata =
                        [(''execution_time_ms'', PyInt elapsed_ms),
                         (''agents_involved'', PyInt (int (length rs))),
                         (''consciousness_metrics'',
                            (case quantum_metrics of None \<Rightarrow> PyNone
                             | Some ms \<Rightarrow> PyDict (map (\<lambda>(k, v). (k, PyFloat v)) ms)))],
                      msg_timestamp = now \<rparr>
              in \<lparr> final_orch = o3\<lparr> conversation_history :=
                                       conversation_history o3 @ [assistant_message] \<rparr>,
                   calls = called, outcome = Inr aura_response \<rparr>))"

subsection \<open>Lattice view\<close>

fun get_agent_position :: "AgentType \<Rightarrow> (string \<times> real) list" where
  "get_agent_position ARCHITECT = [(''x'', 5 / 10), (''y'', 0), (''z'', 0)]"
| "get_agent_position ENGINEER = [(''x'', 0), (''y'', 5 / 10), (''z'', 0)]"
| "get_agent_position REVIEWER = [(''x'', 1), (''y'', 5 / 10), (''z'', 0)]"
| "get_agent_position DEBUGGER = [(''x'', 0), (''y'', 1), (''z'', 0)]"
| "get_agent_position RESEARCH = [(''x'', 1), (''y'', 1), (''z'', 0)]"
| "get_agent_position SYNTHESIZER = [(''x'', 5 / 10), (''y'', 15 / 10), (''z'', 0)]"

fun connections_map :: "AgentType \<Rightarrow> AgentType list" where
  "connections_map ARCHITECT = [ENGINEER, RESEARCH, SYNTHESIZER]"
| "connections_map ENGINEER = [ARCHITECT, REVIEWER, DEBUGGER]"
| "connections_map REVIEWER = [ENGINEER, SYNTHESIZER]"
| "connections_map DEBUGGER = [ENGINEER, RESEARCH]"
| "connections_map RESEARCH = [ARCHITECT, DEBUGGER, SYNTHESIZER]"
| "connections_map SYNTHESIZER = [ARCHITECT, REVIEWER, RESEARCH]"

definition get_agent_connections :: "AuraOrchestrator \<Rightarrow> AgentType \<Rightarrow> string list" where
  "get_agent_connections oc ty = map (\<lambda>t. agent_id (agents oc t)) (connections_map ty)"

text \<open>
  Double arithmetic.  A Python float is an IEEE 754 double; the doubles are the reals
  \<open>n * 2 ^ e\<close> with an integer \<open>n\<close> of at most 53 bits, and an arithmetic operation
  returns the exact result rounded to the nearest double, ties going to the even
  significand.  \<open>round_double\<close> is that rounding (overflow to infinity, which needs a
  result of 2 ^ 1024 or more, is not modelled), \<open>exponent_of\<close> the binary exponent of a
  positive real within the exponent range of the doubles, and \<open>fl_add\<close> and \<open>fl_div\<close>
  are the \<open>+\<close> and \<open>/\<close> of two floats.  The float literal \<open>0.2\<close> denotes
  \<open>round_double (2 / 10)\<close>.
\<close>

definition pow2 :: "int \<Rightarrow> real" where
  "pow2 e = (if 0 \<le> e then 2 ^ nat e else 1 / 2 ^ nat (- e))"

function exponent_up :: "int \<Rightarrow> real \<Rightarrow> int" where
  "exponent_up e x = (if 1023 \<le> e \<or> x < pow2 (e + 1) then e else exponent_up (e + 1) x)"
  by pat_completeness auto
termination
  by (relation "measure (\<lambda>(e, x). nat (1023 - e))") auto

function exponent_down :: "int \<Rightarrow> real \<Rightarrow> int" where
  "exponent_down e x = (if e \<le> - 1022 \<or> pow2 e \<le> x then e else exponent_down (e - 1) x)"
  by pat_completeness auto
termination
  by (relation "measure (\<lambda>(e, x). nat (e + 1022))") auto

declare exponent_up.simps [simp del] exponent_down.simps [simp del]

definition exponent_of :: "real \<Rightarrow> int" where
  "exponent_of x = (if 1 \<le> x then exponent_up 0 x else exponent_down (- 1) x)"

definition round_half_even :: "real \<Rightarrow> int" where
  "round_half_even q =
     (let f = \<lfloor>q\<rfloor>; r = q - of_int f
      in if r < 1 / 2 then f else if 1 / 2 < r then f + 1 else if even f then f else f + 1)"

definition round_double :: "real \<Rightarrow> real" where
  "round_double x =
     (if x = 0 then 0
      else (let u = pow2 (exponent_of \<bar>x\<bar> - 52)
            in sgn x * (of_int (round_half_even (\<bar>x\<bar> / u)) * u)))"

definition fl_add :: "real \<Rightarrow> real \<Rightarrow> real" where
  "fl_add a b = round_double (a + b)"

definition fl_div :: "real \<Rightarrow> real \<Rightarrow> real" where
  "fl_div a b = round_double (a / b)"

text \<open>
  Line 350: \<open>sum(agent.vector.w2_optimization for agent in self.agents.values()) / len(self.agents)\<close>.
  \<open>sum\<close> starts from 0 and adds the scores from left to right in the order of the
  dictionary, every addition being a float addition; the quotient is a float division.
\<close>

definition scores_of :: "AuraOrchestrator \<Rightarrow> real list" where
  "scores_of oc = map (\<lambda>ty. w2_optimization (vector (agents oc ty))) agent_types"

definition coherence_of :: "AuraOrchestrator \<Rightarrow> real" where
  "coherence_of oc = fl_div (foldl fl_add 0 (scores_of oc)) (real (length agent_types))"

text \<open>
  \<open>get_lattice_state\<close>.  The constructor of \<open>AgentLattice\<close> checks
  \<open>Field(ge=0.0, le=1.0)\<close> of the coherence and raises a validation error outside it.
\<close>

definition get_lattice_state :: "string \<Rightarrow> AuraOrchestrator \<Rightarrow> error + AgentLattice" where
  "get_lattice_state now oc =
     (let node_list =
            map (\<lambda>ty. let agent = agents oc ty
                       in \<lparr> node_agent_id = agent_id agent, node_agent_type = ty,
                            node_status = status agent, node_vector = vector agent,
                            position = get_agent_position ty,
                            connections = get_agent_connections oc ty,
                            last_activity = updated_at agent \<rparr>) agent_types;
          active_count =
            length (filter (\<lambda>ty. status (agents oc ty) = ACTIVE \<or> status (agents oc ty) = WORKING)
                      agent_types);
          coherence = coherence_of oc
      in if 0 \<le> coherence \<and> coherence \<le> 1
         then Inr \<lparr> lattice_session_id = session_id oc, nodes = node_list,
                    active_agents = active_count, total_interactions = total_iterations oc,
                    lattice_coherence = coherence, lattice_timestamp = now \<rparr>
         else Inl (ValidationError ''lattice_coherence''))"

subsection \<open>A run in which every agent call raises\<close>

text \<open>
  The agents after a sequence of \<open>process\<close> calls that all raise, the first of them being
  call number \<open>n\<close> of the request: each call is made on the current state of its agent,
  with the same task, context and conversation history (a call that raises adds no
  response and no message), and leaves that agent as the call left it.
\<close>

fun failed_calls ::
  "agent_process \<Rightarrow> string \<Rightarrow> agent_context \<Rightarrow> Message list \<Rightarrow> AgentType list \<Rightarrow> nat \<Rightarrow>
   (AgentType \<Rightarrow> BaseAgent) \<Rightarrow> (AgentType \<Rightarrow> BaseAgent)" where
  "failed_calls proc task ctx history [] n ags = ags"
| "failed_calls proc task ctx history (ty # tys) n ags =
     failed_calls proc task ctx history tys (Suc n)
       (ags(ty := fst (proc n (ags ty) task ctx history)))"

section \<open>The connection manager (api/aura_websocket.py)\<close>

text \<open>
  A websocket is identified by a number.  An outbound frame is the dictionary passed to
  \<open>send_json\<close>; \<open>frame_type\<close> is its \<open>type\<close> entry.
\<close>

type_synonym websocket = nat

datatype frame =
    Connected string string string
  | Pong string
  | Status string nat string
  | Lattice_update string AgentLattice string
  | Error_frame string string string

fun frame_type :: "frame \<Rightarrow> string" where
  "frame_type (Connected sid text ts) = ''connected''"
| "frame_type (Pong ts) = ''pong''"
| "frame_type (Status sid n ts) = ''status''"
| "frame_type (Lattice_update sid lattice ts) = ''lattice_update''"
| "frame_type (Error_frame sid err ts) = ''error''"

text \<open>
  The manager's dictionary \<open>active_connections\<close>, together with the frames each websocket
  has been sent so far (the effect of the successful \<open>send_json\<close> calls; not a field of
  the class).
\<close>

record ConnectionManager =
  active_connections :: "string \<rightharpoonup> websocket set"
  delivered :: "websocket \<Rightarrow> frame list"

definition init_manager :: ConnectionManager where
  "init_manager = \<lparr> active_connections = Map.empty, delivered = (\<lambda>ws. []) \<rparr>"

text \<open>
  \<open>websocket.send_json\<close>: the transport decides whether a send raises; \<open>fails ws\<close> says
  that the send to \<open>ws\<close> raises.
\<close>

definition send_json ::
  "(websocket \<Rightarrow> bool) \<Rightarrow> frame \<Rightarrow> websocket \<Rightarrow> ConnectionManager \<Rightarrow> error + ConnectionManager" where
  "send_json fails msg ws m =
     (if fails ws then Inl (ServiceError ''send failed'')
      else Inr (m\<lparr> delivered := (delivered m)(ws := delivered m ws @ [msg]) \<rparr>))"

text \<open>\<open>connect\<close>: \<open>accepted\<close> says that \<open>websocket.accept()\<close> returns.\<close>

definition connect :: "bool \<Rightarrow> websocket \<Rightarrow> string \<Rightarrow> ConnectionManager \<Rightarrow> error + ConnectionManager" where
  "connect accepted ws sid m =
     (if \<not> accepted then Inl (ServiceError ''accept failed'')
      else
        (let conns = (case active_connections m sid of None \<Rightarrow> {} | Some S \<Rightarrow> S)
         in Inr (m\<lparr> active_connections := (active_connections m)(sid \<mapsto> insert ws conns) \<rparr>)))"

definition disconnect :: "websocket \<Rightarrow> string \<Rightarrow> ConnectionManager \<Rightarrow> ConnectionManager" where
  "disconnect ws sid m =
     (case active_connections m sid of
        None \<Rightarrow> m
      | Some S \<Rightarrow>
          (if S - {ws} = {} then m\<lparr> active_connections := (active_connections m)(sid := None) \<rparr>
           else m\<lparr> active_connections := (active_connections m)(sid \<mapsto> S - {ws}) \<rparr>))"

definition send_personal_message ::
  "(websocket \<Rightarrow> bool) \<Rightarrow> frame \<Rightarrow> websocket \<Rightarrow> ConnectionManager \<Rightarrow> ConnectionManager" where
  "send_personal_message fails msg ws m =
     (case send_json fails msg ws m of Inl e \<Rightarrow> m | Inr m' \<Rightarrow> m')"

text \<open>The loop \<open>for connection in connections\<close> of \<open>broadcast_to_session\<close>.\<close>

fun broadcast_loop ::
  "(websocket \<Rightarrow> bool) \<Rightarrow> frame \<Rightarrow> string \<Rightarrow> websocket list \<Rightarrow> ConnectionManager \<Rightarrow> ConnectionManager" where
  "broadcast_loop fails msg sid [] m = m"
| "broadcast_loop fails msg sid (connection # conns) m =
     broadcast_loop fails msg sid conns
       (case send_json fails msg connection m of
          Inl e \<Rightarrow> disconnect connection sid m
        | Inr m' \<Rightarrow> m')"

text \<open>
  \<open>broadcast_to_session\<close>.  The order in which \<open>list(...)\<close> enumerates a Python set is not
  fixed by the code; it is the parameter \<open>to_list\<close>, of which \<open>enumerates\<close> says that it
  lists every element of a finite set exactly once.
\<close>

definition enumerates :: "(websocket set \<Rightarrow> websocket list) \<Rightarrow> bool" where
  "enumerates to_list = (\<forall>S. finite S \<longrightarrow> set (to_list S) = S \<and> distinct (to_list S))"

definition broadcast_to_session ::
  "(websocket set \<Rightarrow> websocket list) \<Rightarrow> (websocket \<Rightarrow> bool) \<Rightarrow> frame \<Rightarrow> string \<Rightarrow>
   ConnectionManager \<Rightarrow> ConnectionManager" where
  "broadcast_to_session to_list fails msg sid m =
     (case active_connections m sid of
        None \<Rightarrow> m
      | Some S \<Rightarrow> broadcast_loop fails msg sid (to_list S) m)"

definition send_lattice_update ::
  "(websocket set \<Rightarrow> websocket list) \<Rightarrow> (websocket \<Rightarrow> bool) \<Rightarrow> string \<Rightarrow> string \<Rightarrow> AgentLattice \<Rightarrow>
   ConnectionManager \<Rightarrow> ConnectionManager" where
  "send_lattice_update to_list fails now sid lattice_data m =
     broadcast_to_session to_list fails (Lattice_update sid lattice_data now) sid m"

definition send_error ::
  "(websocket set \<Rightarrow> websocket list) \<Rightarrow> (websocket \<Rightarrow> bool) \<Rightarrow> string \<Rightarrow> string \<Rightarrow> string \<Rightarrow>
   ConnectionManager \<Rightarrow> ConnectionManager" where
  "send_error to_list fails now sid err m =
     broadcast_to_session to_list fails (Error_frame sid err now) sid m"

text \<open>\<open>get_connection_count\<close>: an absent or empty session id counts every connection.\<close>

definition get_connection_count :: "string option \<Rightarrow> ConnectionManager \<Rightarrow> nat" where
  "get_connection_count sid m =
     (if sid = None \<or> sid = Some []
      then (\<Sum>s \<in> dom (active_connections m). card (the (active_connections m s)))
      else (case active_connections m (the sid) of None \<Rightarrow> 0 | Some S \<Rightarrow> card S))"

subsection \<open>The websocket endpoint\<close>

text \<open>
  The body of the receive loop of \<open>websocket_endpoint\<close> for one received frame with the
  given \<open>type\<close> entry.  \<open>orchestrators\<close> is the registry \<open>_orchestrators\<close> of
  api/aura_routes.py.  An exception raised here is caught by the handlers around the loop.
\<close>

definition handle_frame ::
  "(websocket set \<Rightarrow> websocket list) \<Rightarrow> (websocket \<Rightarrow> bool) \<Rightarrow> string \<Rightarrow>
   (string \<rightharpoonup> AuraOrchestrator) \<Rightarrow> websocket \<Rightarrow> string \<Rightarrow> string option \<Rightarrow>
   ConnectionManager \<Rightarrow> error + ConnectionManager" where
  "handle_frame to_list fails now orchestrators ws sid msg_type m =
     (if msg_type = Some ''ping'' then Inr (send_personal_message fails (Pong now) ws m)
      else if msg_type = Some ''subscribe_lattice'' then
        (case orchestrators sid of
           None \<Rightarrow> Inr m
         | Some orchestrator \<Rightarrow>
             (case get_lattice_state now orchestrator of
                Inl e \<Rightarrow> Inl e
              | Inr lattice \<Rightarrow> Inr (send_lattice_update to_list fails now sid lattice m)))
      else if msg_type = Some ''get_status'' then
        Inr (send_personal_message fails
               (Status sid (get_connection_count (Some sid) m) now) ws m)
      else Inr m)"

text \<open>
  What \<open>receive_json\<close> yields: a frame with its \<open>type\<close> entry, the disconnect of the
  transport (\<open>WebSocketDisconnect\<close>), or another exception.
\<close>

datatype inbound = Frame "string option" | Disconnected | Receive_failed error

text \<open>
  The loop \<open>while True\<close> with its two exception handlers, run on the inbound events that
  arrive; when they are used up the endpoint is still waiting for the next frame.
\<close>

fun receive_loop ::
  "(websocket set \<Rightarrow> websocket list) \<Rightarrow> (websocket \<Rightarrow> bool) \<Rightarrow> string \<Rightarrow>
   (string \<rightharpoonup> AuraOrchestrator) \<Rightarrow> websocket \<Rightarrow> string \<Rightarrow> inbound list \<Rightarrow>
   ConnectionManager \<Rightarrow> ConnectionManager" where
  "receive_loop to_list fails now orchestrators ws sid [] m = m"
| "receive_loop to_list fails now orchestrators ws sid (Frame msg_type # events) m =
     (case handle_frame to_list fails now orchestrators ws sid msg_type m of
        Inl e \<Rightarrow> disconnect ws sid (send_error to_list fails now sid (error_text e) m)
      | Inr m' \<Rightarrow> receive_loop to_list fails now orchestrators ws sid events m')"
| "receive_loop to_list fails now orchestrators ws sid (Disconnected # events) m =
     disconnect ws sid m"
| "receive_loop to_list fails now orchestrators ws sid (Receive_failed e # events) m =
     disconnect ws sid (send_error to_list fails now sid (error_text e) m)"

text \<open>
  \<open>websocket_endpoint\<close>: \<open>authorized\<close> is the outcome of the token and ownership checks
  (the socket is closed and nothing registered when they fail).
\<close>

definition websocket_endpoint ::
  "(websocket set \<Rightarrow> websocket list) \<Rightarrow> (websocket \<Rightarrow> bool) \<Rightarrow> string \<Rightarrow>
   (string \<rightharpoonup> AuraOrchestrator) \<Rightarrow> bool \<Rightarrow> bool \<Rightarrow> websocket \<Rightarrow> string \<Rightarrow> inbound list \<Rightarrow>
   ConnectionManager \<Rightarrow> error + ConnectionManager" where
  "websocket_endpoint to_list fails now orchestrators authorized accepted ws sid events m =
     (if \<not> authorized then Inr m
      else
        (case connect accepted ws sid m of
           Inl e \<Rightarrow> Inl e
         | Inr m1 \<Rightarrow>
             Inr (receive_loop to_list fails now orchestrators ws sid events
                    (send_personal_message fails
                       (Connected sid ''Connected to AURA real-time updates'' now) ws m1))))"

subsection \<open>Sequences of manager operations\<close>

datatype manager_op =
    Connect bool websocket string
  | Disconnect websocket string
  | Broadcast "websocket \<Rightarrow> bool" frame string

fun apply_op :: "(websocket set \<Rightarrow> websocket list) \<Rightarrow> manager_op \<Rightarrow> ConnectionManager \<Rightarrow> ConnectionManager" where
  "apply_op to_list (Connect accepted ws sid) m =
     (case connect accepted ws sid m of Inl e \<Rightarrow> m | Inr m' \<Rightarrow> m')"
| "apply_op to_list (Disconnect ws sid) m = disconnect ws sid m"
| "apply_op to_list (Broadcast fails msg sid) m = broadcast_to_session to_list fails msg sid m"

definition apply_ops :: "(websocket set \<Rightarrow> websocket list) \<Rightarrow> manager_op list \<Rightarrow> ConnectionManager \<Rightarrow> ConnectionManager" where
  "apply_ops to_list ops m = fold (apply_op to_list) ops m"

definition registry_ok :: "ConnectionManager \<Rightarrow> bool" where
  "registry_ok m = (\<forall>sid S. active_connections m sid = Some S \<longrightarrow> S \<noteq> {} \<and> finite S)"

definition nonempty :: "websocket set \<Rightarrow> websocket set option" where
  "nonempty S = (if S = {} then None else Some S)"

definition no_failure :: "websocket \<Rightarrow> bool" where
  "no_failure ws = False"

definition fails_only :: "websocket \<Rightarrow> websocket \<Rightarrow> bool" where
  "fails_only c ws = (ws = c)"

section \<open>Concrete inputs\<close>

text \<open>
  A request with the default field values of \<open>AuraRequest\<close> apart from the prompt and
  the iteration bound; an agent \<open>process\<close> that always answers with a given confidence, and
  one that always raises.
\<close>

definition request_with :: "string \<Rightarrow> int \<Rightarrow> AuraRequest" where
  "request_with p m =
     \<lparr> prompt = p, req_session_id = None, agents_enabled = agent_types, max_iterations = m,
       temperature = 7 / 10, stream = False, include_traces = False, quantum_enhanced = True \<rparr>"

definition fixed_process :: "real \<Rightarrow> agent_process" where
  "fixed_process conf n a task ctx history =
     (a\<lparr> status := COMPLETED \<rparr>,
      new_AgentResponse (agent_id a) (agent_type a) ''done'' conf None None)"

definition failing_process :: agent_process where
  "failing_process n a task ctx history = (a\<lparr> status := ERROR \<rparr>, Inl (ServiceError ''unavailable''))"

definition always_fails :: "agent_process \<Rightarrow> bool" where
  "always_fails proc = (\<forall>n a task ctx history. \<exists>e. snd (proc n a task ctx history) = Inl e)"

fun example_ids :: "AgentType \<Rightarrow> string" where
  "example_ids ty = agent_type_value ty @ ''_1''"

definition example_orchestrator :: AuraOrchestrator where
  "example_orchestrator = init_orchestrator example_ids ''t0'' ''s1'' None"




definition example_run_state :: run_state where
  "example_run_state = \<lparr> orch = example_orchestrator, agent_responses = [], invoked = [] \<rparr>"

definition example_output :: agent_output where
  "example_output = \<lparr> out_agent_type = ''engineer'', out_response = ''code'',
                      out_confidence = 8 / 10, out_metrics = None \<rparr>"

definition context_with :: "agent_output list \<Rightarrow> synthesis_context option" where
  "context_with outs = Some \<lparr> ctx_agent_responses = Some outs, ctx_rest = [] \<rparr>"

definition example_manager :: ConnectionManager where
  "example_manager = \<lparr> active_connections = [''s1'' \<mapsto> {1, 2, 3}], delivered = (\<lambda>ws. []) \<rparr>"

definition two_clients :: ConnectionManager where
  "two_clients = \<lparr> active_connections = [''s1'' \<mapsto> {1, 2}], delivered = (\<lambda>ws. []) \<rparr>"

definition frames_sent_to :: "websocket \<Rightarrow> error + ConnectionManager \<Rightarrow> string list" where
  "frames_sent_to ws r = (case r of Inl e \<Rightarrow> [] | Inr m \<Rightarrow> map frame_type (delivered m ws))"

definition fails_all :: "websocket \<Rightarrow> bool" where
  "fails_all ws = True"

section \<open>Properties of the agent base class\<close>

lemma last_n_length: "length (last_n n xs) = min n (length xs)"
  by (simp add: last_n_def)

lemma last_n_short: "length xs \<le> n \<Longrightarrow> last_n n xs = xs"
  by (simp add: last_n_def)

lemma last_n_append:
  "last_n n (xs @ ys) = (if n \<le> length ys then last_n n ys else last_n (n - length ys) xs @ ys)"
  by (auto simp add: last_n_def)

lemma last_n_last_n: "m \<le> n \<Longrightarrow> last_n m (last_n n xs) = last_n m xs"
proof -
  assume mn: "m \<le> n"
  have "length xs - (length xs - n + m) + (length xs - n) = length xs - m"
    using mn by arith
  then show ?thesis
    by (simp add: last_n_def)
qed

lemma last_n_append_last_n: "last_n n (last_n n xs @ ys) = last_n n (xs @ ys)"
  by (simp add: last_n_append last_n_last_n)

lemma short_term_update_memory:
  "short_term (memory (update_memory now st lt wc a)) =
     (case st of None \<Rightarrow> short_term (memory a) | Some xs \<Rightarrow> last_n 10 (short_term (memory a) @ xs))"
  by (simp add: update_memory_def Let_def split: option.splits)

lemma short_term_apply_call_le:
  "length (short_term (memory a)) \<le> 10 \<Longrightarrow> length (short_term (memory (apply_call c a))) \<le> 10"
  by (cases c)
     (simp_all add: short_term_update_memory last_n_length add_trace_def
        update_w2_optimization_def reset_def split: option.splits)

lemma short_term_apply_calls_le:
  "length (short_term (memory a)) \<le> 10 \<Longrightarrow> length (short_term (memory (apply_calls cs a))) \<le> 10"
  unfolding apply_calls_def
  by (induction cs arbitrary: a) (simp_all add: short_term_apply_call_le)

lemma short_term_fifo:
  "only_update_memory cs \<Longrightarrow> length (short_term (memory a)) \<le> 10 \<Longrightarrow>
   short_term (memory (apply_calls cs a)) = last_n 10 (short_term (memory a) @ appended cs)"
  unfolding apply_calls_def
proof (induction cs arbitrary: a rule: only_update_memory.induct)
  case 1
  then show ?case by (simp add: last_n_short)
next
  case (2 now st lt wc cs)
  let ?b = "update_memory now st lt wc a"
  have len: "length (short_term (memory ?b)) \<le> 10"
    using 2(3) by (simp add: short_term_update_memory last_n_length split: option.splits)
  from 2 have ih:
    "short_term (memory (fold apply_call cs ?b)) = last_n 10 (short_term (memory ?b) @ appended cs)"
    using len by simp
  show ?case
  proof (cases st)
    case None
    then show ?thesis using ih by (simp add: short_term_update_memory)
  next
    case (Some xs)
    then show ?thesis
      using ih by (simp add: short_term_update_memory last_n_append_last_n)
  qed
qed simp_all

lemma vector_ok_apply_call: "vector_ok (vector a) \<Longrightarrow> vector_ok (vector (apply_call c a))"
  by (cases c)
     (simp_all add: vector_ok_def unit_interval_def update_memory_def Let_def add_trace_def
        update_w2_optimization_def reset_def)

lemma vector_ok_apply_calls: "vector_ok (vector a) \<Longrightarrow> vector_ok (vector (apply_calls cs a))"
  unfolding apply_calls_def
  by (induction cs arbitrary: a) (simp_all add: vector_ok_apply_call)

text \<open>
  Claim C7.  Starting from a freshly constructed agent, after any sequence of calls the
  short-term memory holds at most 10 entries; after any sequence of \<open>update_memory\<close>
  calls it is exactly the last 10 of all the strings appended so far, in the order they
  were appended (all of them when fewer than 10 were appended), so the oldest entries are
  the ones dropped.
\<close>

theorem short_term_capped_fifo:
  "length (short_term (memory (apply_calls cs (init_agent aid ty sid now)))) \<le> 10 \<and>
   (only_update_memory cs \<longrightarrow>
      short_term (memory (apply_calls cs (init_agent aid ty sid now))) = last_n 10 (appended cs) \<and>
      (10 \<le> length (appended cs) \<longrightarrow>
         short_term (memory (apply_calls cs (init_agent aid ty sid now)))
           = drop (length (appended cs) - 10) (appended cs) \<and>
         length (short_term (memory (apply_calls cs (init_agent aid ty sid now)))) = 10))"
proof -
  let ?a = "init_agent aid ty sid now"
  have e: "short_term (memory ?a) = []"
    by (simp add: init_agent_def)
  have le: "length (short_term (memory (apply_calls cs ?a))) \<le> 10"
    by (rule short_term_apply_calls_le) (simp add: e)
  have fifo: "short_term (memory (apply_calls cs ?a)) = last_n 10 (appended cs)"
    if "only_update_memory cs"
    using short_term_fifo [OF that, of ?a] by (simp add: e)
  show ?thesis
    using le fifo by (auto simp add: last_n_def)
qed

theorem short_term_capped_fifo_witness:
  "only_update_memory
     [Update_memory ''t1'' (Some [''a'', ''b'', ''c'', ''d'', ''e'']) None None,
      Update_memory ''t2'' None None (Some ''ctx''),
      Update_memory ''t3'' (Some [''f'', ''g'', ''h'', ''i'', ''j'', ''k'', ''l'']) None None] \<and>
   short_term (memory (apply_calls
     [Update_memory ''t1'' (Some [''a'', ''b'', ''c'', ''d'', ''e'']) None None,
      Update_memory ''t2'' None None (Some ''ctx''),
      Update_memory ''t3'' (Some [''f'', ''g'', ''h'', ''i'', ''j'', ''k'', ''l'']) None None]
     (init_agent ''engineer_1'' ENGINEER None ''t0'')))
   = [''c'', ''d'', ''e'', ''f'', ''g'', ''h'', ''i'', ''j'', ''k'', ''l'']"
  using short_term_capped_fifo
    [of "[Update_memory ''t1'' (Some [''a'', ''b'', ''c'', ''d'', ''e'']) None None,
          Update_memory ''t2'' None None (Some ''ctx''),
          Update_memory ''t3'' (Some [''f'', ''g'', ''h'', ''i'', ''j'', ''k'', ''l'']) None None]"
        "''engineer_1''" ENGINEER None "''t0''"]
  by (simp add: last_n_def)

text \<open>
  Claim C8.  Starting from a freshly constructed agent, after any sequence of calls the
  weight, the gamma resistance and the W2 optimization score all lie in [0,1];
  \<open>update_w2_optimization\<close> stores its argument clamped to [0,1], so -5 is stored as 0
  and 5 as 1.
\<close>

theorem vector_fields_clamped:
  "vector_ok (vector (apply_calls cs (init_agent aid ty sid now))) \<and>
   w2_optimization (vector (update_w2_optimization t score a)) = max 0 (min score 1) \<and>
   unit_interval (w2_optimization (vector (update_w2_optimization t score a))) \<and>
   w2_optimization (vector (update_w2_optimization t (- 5) a)) = 0 \<and>
   w2_optimization (vector (update_w2_optimization t 5 a)) = 1"
proof -
  have "vector_ok (vector (init_agent aid ty sid now))"
    by (simp add: init_agent_def vector_ok_def unit_interval_def)
  then have "vector_ok (vector (apply_calls cs (init_agent aid ty sid now)))"
    by (rule vector_ok_apply_calls)
  then show ?thesis
    by (simp add: update_w2_optimization_def unit_interval_def)
qed

section \<open>Properties of the synthesizer and the orchestrator\<close>

lemma contains_sublist: "contains kw s \<longleftrightarrow> sublist kw s"
  by (induction s) (auto simp: sublist_Cons_right)

lemma any_keyword_iff: "any_keyword kws s \<longleftrightarrow> (\<exists>kw\<in>set kws. sublist kw s)"
  by (simp add: any_keyword_def list_ex_iff contains_sublist)

lemma synthesis_quality_mono: "1 \<le> m \<Longrightarrow> m \<le> n \<Longrightarrow> synthesis_quality m \<le> synthesis_quality n"
  by (auto simp add: synthesis_quality_def min_def)

lemma synthesis_quality_bound: "synthesis_quality n \<le> 95 / 100 \<and> 7 / 10 \<le> synthesis_quality n"
  by (simp add: synthesis_quality_def min_def)

lemma synthesizer_process_confidence:
  "snd (synthesizer_process llm now et task context history a) = Inr r \<Longrightarrow>
   confidence r = synthesis_quality (length (agent_outputs_of context))"
  by (auto simp add: synthesizer_process_def Let_def synthesizer_failed_def new_AgentResponse_def
      split: sum.splits if_splits)

lemma synthesizer_process_status:
  "snd (synthesizer_process llm now et task context history a) = Inr r \<Longrightarrow>
   status (fst (synthesizer_process llm now et task context history a)) = COMPLETED"
  by (auto simp add: synthesizer_process_def Let_def synthesizer_failed_def new_AgentResponse_def
      split: sum.splits if_splits)

lemma synthesizer_process_succeeds:
  "llm (map_option content (last_user_msg history)) task (agent_outputs_of context)
       (case context of None \<Rightarrow> [] | Some c \<Rightarrow> ctx_rest c) = Inr txt \<Longrightarrow>
   \<exists>r. snd (synthesizer_process llm now et task context history a) = Inr r \<and> response r = txt"
  using synthesis_quality_bound [of "length (agent_outputs_of context)"]
  by (simp add: synthesizer_process_def Let_def new_AgentResponse_def)

text \<open>
  Claim C2 as stated fails: with no agent outputs the synthesizer returns the default
  confidence 0.9, with one agent output it returns 0.75, so the confidence for 0 outputs
  is not below the confidence for 1 output.
\<close>

theorem synthesizer_confidence_counterexample:
  "map_sum id confidence (snd (synthesizer_process (constant_completion ''ok'') ''t1'' 0 ''task''
     (Some \<lparr> ctx_agent_responses = Some [], ctx_rest = [] \<rparr>) []
     (init_agent ''synthesizer_1'' SYNTHESIZER None ''t0''))) = Inr (9 / 10) \<and>
   map_sum id confidence (snd (synthesizer_process (constant_completion ''ok'') ''t1'' 0 ''task''
     (Some \<lparr> ctx_agent_responses = Some [\<lparr> out_agent_type = ''engineer'', out_response = ''code'',
          out_confidence = 8 / 10, out_metrics = None \<rparr>], ctx_rest = [] \<rparr>) []
     (init_agent ''synthesizer_1'' SYNTHESIZER None ''t0''))) = Inr (3 / 4) \<and>
   length ([] :: agent_output list) \<le> length [\<lparr> out_agent_type = ''engineer'', out_response = ''code'',
          out_confidence = 8 / 10, out_metrics = None \<rparr>] \<and>
   \<not> ((9 / 10 :: real) \<le> 3 / 4)"
  by (simp add: synthesizer_process_def Let_def new_AgentResponse_def agent_outputs_of_def
       constant_completion_def synthesis_quality_def)

text \<open>
  Claim C2, amended.  For two successful synthesizer invocations whose contexts carry at
  least one agent output, the confidence does not decrease with the number of outputs
  (it is 0.7 + 0.05 per output, capped at 0.95); with no agent output the confidence is the
  default 0.9; every returned confidence is at most 0.95 and so strictly below 1.
\<close>

theorem synthesizer_confidence_monotone:
  assumes "snd (synthesizer_process llm1 now1 et1 task1 context1 history1 a1) = Inr r1"
    and "snd (synthesizer_process llm2 now2 et2 task2 context2 history2 a2) = Inr r2"
  shows "(1 \<le> length (agent_outputs_of context1) \<and>
          length (agent_outputs_of context1) \<le> length (agent_outputs_of context2)
            \<longrightarrow> confidence r1 \<le> confidence r2) \<and>
         (agent_outputs_of context1 = [] \<longrightarrow> confidence r1 = 9 / 10) \<and>
         (agent_outputs_of context1 \<noteq> [] \<longrightarrow>
            confidence r1 = min (95 / 100) (7 / 10 + real (length (agent_outputs_of context1)) * (5 / 100))) \<and>
         confidence r1 \<le> 95 / 100 \<and> confidence r1 < 1"
proof -
  have c1: "confidence r1 = synthesis_quality (length (agent_outputs_of context1))"
    using assms(1) by (rule synthesizer_process_confidence)
  have c2: "confidence r2 = synthesis_quality (length (agent_outputs_of context2))"
    using assms(2) by (rule synthesizer_process_confidence)
  have b: "synthesis_quality (length (agent_outputs_of context1)) \<le> 95 / 100"
    using synthesis_quality_bound by blast
  show ?thesis
    using b synthesis_quality_mono [of "length (agent_outputs_of context1)" "length (agent_outputs_of context2)"]
    by (auto simp add: c1 c2) (simp_all add: synthesis_quality_def)
qed

theorem synthesizer_confidence_monotone_witness:
  "\<exists>r1 r2.
     snd (synthesizer_process (constant_completion ''ok'') ''t1'' 0 ''task''
            (context_with [example_output]) [] (init_agent ''synthesizer_1'' SYNTHESIZER None ''t0''))
       = Inr r1 \<and>
     snd (synthesizer_process (constant_completion ''ok'') ''t2'' 0 ''task''
            (context_with [example_output, example_output, example_output]) []
            (init_agent ''synthesizer_1'' SYNTHESIZER None ''t0''))
       = Inr r2 \<and>
     1 \<le> length (agent_outputs_of (context_with [example_output])) \<and>
     length (agent_outputs_of (context_with [example_output]))
       \<le> length (agent_outputs_of (context_with [example_output, example_output, example_output])) \<and>
     confidence r1 \<le> confidence r2 \<and> confidence r1 = 3 / 4 \<and> confidence r1 < 1"
proof -
  let ?a = "init_agent ''synthesizer_1'' SYNTHESIZER None ''t0''"
  let ?c1 = "context_with [example_output]"
  let ?c2 = "context_with [example_output, example_output, example_output]"
  obtain r1 where r1: "snd (synthesizer_process (constant_completion ''ok'') ''t1'' 0 ''task'' ?c1 [] ?a)
      = Inr r1"
    using synthesizer_process_succeeds [of "constant_completion ''ok''" "[]" "''task''" ?c1 "''ok''"
        "''t1''" 0 ?a]
    by (auto simp add: constant_completion_def)
  obtain r2 where r2: "snd (synthesizer_process (constant_completion ''ok'') ''t2'' 0 ''task'' ?c2 [] ?a)
      = Inr r2"
    using synthesizer_process_succeeds [of "constant_completion ''ok''" "[]" "''task''" ?c2 "''ok''"
        "''t2''" 0 ?a]
    by (auto simp add: constant_completion_def)
  have l1: "agent_outputs_of ?c1 = [example_output]"
    by (simp add: agent_outputs_of_def context_with_def)
  have l2: "agent_outputs_of ?c2 = [example_output, example_output, example_output]"
    by (simp add: agent_outputs_of_def context_with_def)
  from synthesizer_confidence_monotone [OF r1 r2] l1 l2
  have "confidence r1 \<le> confidence r2 \<and> confidence r1 = 3 / 4 \<and> confidence r1 < 1"
    by simp
  with r1 r2 l1 l2 show ?thesis by simp
qed

lemma should_continue_iff:
  "should_continue rs i m \<longleftrightarrow> i < m - 1 \<and> (rs = [] \<or> confidence (last rs) < 9 / 10)"
  by (auto simp add: should_continue_def)

lemma run_agents_total_iterations:
  "total_iterations (orch (run_agents proc now req workflow st)) = total_iterations (orch st)"
  by (induction workflow arbitrary: st) (auto simp add: Let_def split: prod.splits sum.splits)

text \<open>
  Claim C3.  The loop evaluates the stopping policy once after every pass: it continues
  exactly when this was not the last permitted iteration and either no response has been
  collected or the most recent response has confidence below 0.9.  The loop over the
  remaining iterations obeys this policy: after the pass of iteration \<open>i\<close> it returns the
  state reached by that pass when \<open>i\<close> is the last permitted iteration; otherwise it goes
  on with the remaining iterations when no response has been collected; otherwise it
  returns the state reached by that pass when the last collected response has confidence
  at least 0.9; otherwise it goes on with the remaining iterations.  In particular, for
  any \<open>max_iterations\<close>, if after the pass of some iteration the last collected response
  has confidence 0.95, no further iteration is executed: the loop returns the state reached
  by that pass and the iteration counter has grown by one.
\<close>

theorem stopping_policy:
  fixes proc :: agent_process and now :: string and req :: AuraRequest
    and workflow :: "AgentType list" and st :: run_state
  defines "st2 \<equiv> run_agents proc now req workflow
             (st\<lparr> orch := (orch st)\<lparr> total_iterations := total_iterations (orch st) + 1 \<rparr> \<rparr>)"
  shows
  "(should_continue rs j m \<longleftrightarrow>
      \<not> (j \<ge> m - 1) \<and> (rs = [] \<or> \<not> (confidence (last rs) \<ge> 9 / 10))) \<and>
   iterate proc now req workflow [] st = st \<and>
   iterate proc now req workflow (i # rest) st =
     (if i \<ge> max_iterations req - 1 then st2
      else if agent_responses st2 = [] then iterate proc now req workflow rest st2
      else if confidence (last (agent_responses st2)) \<ge> 9 / 10 then st2
      else iterate proc now req workflow rest st2) \<and>
   (agent_responses st2 \<noteq> [] \<and> confidence (last (agent_responses st2)) = 95 / 100 \<longrightarrow>
      iterate proc now req workflow (i # rest) st = st2 \<and>
      total_iterations (orch (iterate proc now req workflow (i # rest) st))
        = total_iterations (orch st) + 1)"
proof -
  have t2: "total_iterations (orch st2) = total_iterations (orch st) + 1"
    unfolding st2_def by (simp add: run_agents_total_iterations)
  have loop: "iterate proc now req workflow (i # rest) st =
     (if \<not> should_continue (agent_responses st2) i (max_iterations req) then st2
      else iterate proc now req workflow rest st2)"
    unfolding st2_def by (simp add: Let_def)
  show ?thesis
    unfolding loop using t2 by (auto simp add: should_continue_def)
qed


lemma get_lattice_state_ok:
  "0 \<le> coherence_of oc \<Longrightarrow> coherence_of oc \<le> 1 \<Longrightarrow> \<exists>lat. get_lattice_state now oc = Inr lat"
  unfolding get_lattice_state_def Let_def by simp















text \<open>
  Claim C4.  The workflow is a function of the lowercased prompt: the debugging workflow
  when it contains a debugging keyword, otherwise the review workflow when it contains a
  review keyword, otherwise the research workflow when it contains a research keyword,
  otherwise the default workflow.  A prompt containing both a debugging keyword and a
  review keyword selects the debugging workflow.
\<close>

theorem workflow_classification:
  "determine_workflow req =
     (if    sublist ''error'' (lower (prompt req)) \<or> sublist ''bug'' (lower (prompt req))
          \<or> sublist ''debug'' (lower (prompt req)) \<or> sublist ''fix'' (lower (prompt req))
          \<or> sublist ''broken'' (lower (prompt req)) \<or> sublist ''failing'' (lower (prompt req))
      then [DEBUGGER, ENGINEER, REVIEWER]
      else if sublist ''review'' (lower (prompt req)) \<or> sublist ''check'' (lower (prompt req))
          \<or> sublist ''audit'' (lower (prompt req)) \<or> sublist ''improve'' (lower (prompt req))
      then [REVIEWER, ENGINEER]
      else if sublist ''how to'' (lower (prompt req)) \<or> sublist ''what is'' (lower (prompt req))
          \<or> sublist ''explain'' (lower (prompt req)) \<or> sublist ''research'' (lower (prompt req))
          \<or> sublist ''find'' (lower (prompt req))
      then [RESEARCH, ARCHITECT]
      else [ARCHITECT, ENGINEER, REVIEWER]) \<and>
   ((\<exists>d \<in> set debugging_keywords. sublist d (lower (prompt req))) \<and>
    (\<exists>r \<in> set review_keywords. sublist r (lower (prompt req)))
      \<longrightarrow> determine_workflow req = [DEBUGGER, ENGINEER, REVIEWER])"
  by (simp add: determine_workflow_def Let_def any_keyword_iff debugging_keywords_def
        review_keywords_def research_keywords_def)

theorem workflow_classification_witness:
  "(\<exists>d \<in> set debugging_keywords. sublist d (lower (prompt (request_with ''Review this ERROR'' 5)))) \<and>
   (\<exists>r \<in> set review_keywords. sublist r (lower (prompt (request_with ''Review this ERROR'' 5)))) \<and>
   determine_workflow (request_with ''Review this ERROR'' 5) = [DEBUGGER, ENGINEER, REVIEWER]"
proof -
  have l: "lower (prompt (request_with ''Review this ERROR'' 5)) = ''review this error''"
    by (simp add: request_with_def lower_def lower_char_def)
  have d: "\<exists>d \<in> set debugging_keywords. sublist d (lower (prompt (request_with ''Review this ERROR'' 5)))"
    unfolding l by (simp add: debugging_keywords_def contains_sublist [symmetric])
  have r: "\<exists>r \<in> set review_keywords. sublist r (lower (prompt (request_with ''Review this ERROR'' 5)))"
    unfolding l by (simp add: review_keywords_def contains_sublist [symmetric])
  from d r workflow_classification [of "request_with ''Review this ERROR'' 5"]
  show ?thesis by blast
qed

lemma workflow_examples:
  "determine_workflow (request_with ''please fix this error'' 5) = [DEBUGGER, ENGINEER, REVIEWER]"
  "determine_workflow (request_with ''can you review my code'' 5) = [REVIEWER, ENGINEER]"
  "determine_workflow (request_with ''what is a qubit'' 5) = [RESEARCH, ARCHITECT]"
  "determine_workflow (request_with ''build me a login page'' 5) = [ARCHITECT, ENGINEER, REVIEWER]"
  by (simp_all add: determine_workflow_def Let_def any_keyword_def debugging_keywords_def
        review_keywords_def research_keywords_def request_with_def lower_def lower_char_def)





lemma coherence_of_unfold:
  "coherence_of oc =
     fl_div (foldl fl_add 0
       [w2_optimization (vector (agents oc ARCHITECT)), w2_optimization (vector (agents oc ENGINEER)),
        w2_optimization (vector (agents oc REVIEWER)), w2_optimization (vector (agents oc DEBUGGER)),
        w2_optimization (vector (agents oc RESEARCH)), w2_optimization (vector (agents oc SYNTHESIZER))]) 6"
  by (simp add: coherence_of_def scores_of_def agent_types_def)








lemma py_range_5: "py_range 5 = [0, 1, 2, 3, 4]"
  by (simp add: py_range_def upt_rec)

lemma run_agents_invoked_count:
  "SYNTHESIZER \<notin> set workflow \<Longrightarrow>
   count_list (invoked (run_agents proc now req workflow st)) SYNTHESIZER
     = count_list (invoked st) SYNTHESIZER"
  by (induction workflow arbitrary: st) (auto simp add: Let_def split: prod.splits sum.splits)

lemma iterate_invoked_count:
  "SYNTHESIZER \<notin> set workflow \<Longrightarrow>
   count_list (invoked (iterate proc now req workflow its st)) SYNTHESIZER
     = count_list (invoked st) SYNTHESIZER"
  by (induction its arbitrary: st) (simp_all add: Let_def run_agents_invoked_count)

lemma iterate_total_iterations_le:
  "total_iterations (orch (iterate proc now req workflow its st))
     \<le> total_iterations (orch st) + length its"
proof (induction its arbitrary: st)
  case Nil
  then show ?case by simp
next
  case (Cons i its)
  let ?st1 = "st\<lparr> orch := (orch st)\<lparr> total_iterations := total_iterations (orch st) + 1 \<rparr> \<rparr>"
  let ?st2 = "run_agents proc now req workflow ?st1"
  have t2: "total_iterations (orch ?st2) = total_iterations (orch st) + 1"
    by (simp add: run_agents_total_iterations)
  show ?case
  proof (cases "should_continue (agent_responses ?st2) i (max_iterations req)")
    case True
    then have "iterate proc now req workflow (i # its) st = iterate proc now req workflow its ?st2"
      by (simp add: Let_def)
    then show ?thesis using Cons.IH [of ?st2] t2 by simp
  next
    case False
    then have "iterate proc now req workflow (i # its) st = ?st2"
      by (simp add: Let_def)
    then show ?thesis using t2 by simp
  qed
qed

lemma iterate_total_iterations_ge:
  "its \<noteq> [] \<Longrightarrow>
   total_iterations (orch st) + 1 \<le> total_iterations (orch (iterate proc now req workflow its st))"
proof (induction its arbitrary: st)
  case Nil
  then show ?case by simp
next
  case (Cons i its)
  let ?st1 = "st\<lparr> orch := (orch st)\<lparr> total_iterations := total_iterations (orch st) + 1 \<rparr> \<rparr>"
  let ?st2 = "run_agents proc now req workflow ?st1"
  have t2: "total_iterations (orch ?st2) = total_iterations (orch st) + 1"
    by (simp add: run_agents_total_iterations)
  show ?case
  proof (cases "should_continue (agent_responses ?st2) i (max_iterations req)")
    case True
    then have e: "iterate proc now req workflow (i # its) st = iterate proc now req workflow its ?st2"
      by (simp add: Let_def)
    show ?thesis
    proof (cases its)
      case Nil
      then show ?thesis using e t2 by simp
    next
      case (Cons j js)
      then have "its \<noteq> []" by simp
      from Cons.IH [OF this, of ?st2] show ?thesis using e t2 by simp
    qed
  next
    case False
    then have "iterate proc now req workflow (i # its) st = ?st2"
      by (simp add: Let_def)
    then show ?thesis using t2 by simp
  qed
qed

lemma determine_workflow_no_synthesizer: "SYNTHESIZER \<notin> set (determine_workflow req)"
  by (simp add: determine_workflow_def Let_def)

lemma run_agents_always_fails:
  "always_fails proc \<Longrightarrow>
   agent_responses (run_agents proc now req workflow st) = agent_responses st \<and>
   invoked (run_agents proc now req workflow st)
     = invoked st @ filter (\<lambda>t. t \<in> set (agents_enabled req)) workflow"
proof (induction workflow arbitrary: st)
  case Nil
  then show ?case by simp
next
  case (Cons ty workflow)
  show ?case
  proof (cases "ty \<in> set (agents_enabled req)")
    case False
    then show ?thesis using Cons by simp
  next
    case True
    obtain a' res where p: "proc (length (invoked st)) (agents (orch st) ty) (prompt req)
        (prepare_context (orch st) req (agent_responses st)) (conversation_history (orch st)) = (a', res)"
      by (cases "proc (length (invoked st)) (agents (orch st) ty) (prompt req)
        (prepare_context (orch st) req (agent_responses st)) (conversation_history (orch st))")
    from Cons.prems obtain e where "res = Inl e"
      unfolding always_fails_def using p by (metis snd_conv)
    then show ?thesis
      using True p Cons.IH [OF Cons.prems] by (simp add: Let_def)
  qed
qed

lemma iterate_always_fails:
  assumes f: "always_fails proc" and m: "max_iterations req = int m"
  shows "agent_responses st = [] \<Longrightarrow> k \<le> m \<Longrightarrow> n = m - k \<Longrightarrow>
     agent_responses (iterate proc now req workflow (map int [k..<m]) st) = [] \<and>
     invoked (iterate proc now req workflow (map int [k..<m]) st)
       = invoked st @ concat (replicate n (filter (\<lambda>t. t \<in> set (agents_enabled req)) workflow)) \<and>
     total_iterations (orch (iterate proc now req workflow (map int [k..<m]) st))
       = total_iterations (orch st) + n"
proof (induction n arbitrary: k st)
  case 0
  then show ?case by simp
next
  case (Suc n)
  then have km: "k < m" by simp
  let ?st1 = "st\<lparr> orch := (orch st)\<lparr> total_iterations := total_iterations (orch st) + 1 \<rparr> \<rparr>"
  let ?st2 = "run_agents proc now req workflow ?st1"
  have r2: "agent_responses ?st2 = []"
    using run_agents_always_fails [OF f, of now req workflow ?st1] Suc.prems(1) by simp
  have i2: "invoked ?st2 = invoked st @ filter (\<lambda>t. t \<in> set (agents_enabled req)) workflow"
    using run_agents_always_fails [OF f, of now req workflow ?st1] by simp
  have t2: "total_iterations (orch ?st2) = total_iterations (orch st) + 1"
    by (simp add: run_agents_total_iterations)
  have up: "map int [k..<m] = int k # map int [Suc k..<m]"
    using km by (simp add: upt_conv_Cons)
  show ?case
  proof (cases "Suc k < m")
    case True
    then have sc: "should_continue (agent_responses ?st2) (int k) (max_iterations req)"
      using r2 by (simp add: should_continue_def m)
    have e: "iterate proc now req workflow (map int [k..<m]) st
               = iterate proc now req workflow (map int [Suc k..<m]) ?st2"
      unfolding up using sc by (simp add: Let_def)
    have "n = m - Suc k" using Suc.prems by simp
    from Suc.IH [OF r2 _ this] True
    show ?thesis unfolding e using i2 t2 by simp
  next
    case False
    then have mk: "m = Suc k" using km by simp
    then have "n = 0" using Suc.prems by simp
    have "\<not> should_continue (agent_responses ?st2) (int k) (max_iterations req)"
      by (simp add: should_continue_def mk m)
    then have "iterate proc now req workflow (map int [k..<m]) st = ?st2"
      unfolding up by (simp add: Let_def)
    then show ?thesis using \<open>n = 0\<close> r2 i2 t2 by simp
  qed
qed

lemma process_request_calls:
  "calls (process_request proc llm quantum now elapsed req oc) =
     invoked (iterate proc now req (determine_workflow req) (py_range (max_iterations req))
        \<lparr> orch = oc\<lparr> conversation_history := conversation_history oc @ [user_message now req] \<rparr>,
          agent_responses = [], invoked = [] \<rparr>) @ [SYNTHESIZER]"
  by (simp add: process_request_def Let_def split: prod.splits sum.splits)

lemma process_request_total_iterations:
  "total_iterations (final_orch (process_request proc llm quantum now elapsed req oc)) =
     total_iterations (orch (iterate proc now req (determine_workflow req) (py_range (max_iterations req))
        \<lparr> orch = oc\<lparr> conversation_history := conversation_history oc @ [user_message now req] \<rparr>,
          agent_responses = [], invoked = [] \<rparr>))"
  by (simp add: process_request_def Let_def split: prod.splits sum.splits)

lemma py_range_length: "length (py_range n) = nat n"
  by (simp add: py_range_def)

lemma failed_calls_append:
  "failed_calls proc task ctx history (xs @ ys) n ags =
     failed_calls proc task ctx history ys (n + length xs) (failed_calls proc task ctx history xs n ags)"
  by (induction xs arbitrary: n ags) simp_all

lemma run_agents_agents_other:
  "ty \<notin> set workflow \<Longrightarrow>
   agents (orch (run_agents proc now req workflow st)) ty = agents (orch st) ty"
  by (induction workflow arbitrary: st) (auto simp add: Let_def split: prod.splits sum.splits)

lemma iterate_agents_other:
  "ty \<notin> set workflow \<Longrightarrow>
   agents (orch (iterate proc now req workflow its st)) ty = agents (orch st) ty"
  by (induction its arbitrary: st) (simp_all add: Let_def run_agents_agents_other)

lemma prepare_context_agents:
  "prepare_context (oc\<lparr> agents := ags \<rparr>) req rs = prepare_context oc req rs"
  by (simp add: prepare_context_def)

lemma prepare_context_total_iterations:
  "prepare_context (oc\<lparr> total_iterations := n \<rparr>) req rs = prepare_context oc req rs"
  by (simp add: prepare_context_def)

lemma run_agents_step_raises:
  assumes "ty \<in> set (agents_enabled req)"
    and "snd (proc (length (invoked st)) (agents (orch st) ty) (prompt req)
               (prepare_context (orch st) req (agent_responses st))
               (conversation_history (orch st))) = Inl e"
  shows "run_agents proc now req (ty # workflow) st =
           run_agents proc now req workflow
             (st\<lparr> orch := (orch st)\<lparr> agents := (agents (orch st))
                      (ty := fst (proc (length (invoked st)) (agents (orch st) ty) (prompt req)
                                   (prepare_context (orch st) req (agent_responses st))
                                   (conversation_history (orch st)))) \<rparr>,
                   invoked := invoked st @ [ty] \<rparr>)"
  using assms
  by (cases "proc (length (invoked st)) (agents (orch st) ty) (prompt req)
               (prepare_context (orch st) req (agent_responses st))
               (conversation_history (orch st))")
     (simp add: Let_def)

lemma run_agents_all_fail:
  assumes f: "always_fails proc"
  shows "agents (orch (run_agents proc now req workflow st)) =
           failed_calls proc (prompt req) (prepare_context (orch st) req (agent_responses st))
             (conversation_history (orch st))
             (filter (\<lambda>t. t \<in> set (agents_enabled req)) workflow) (length (invoked st))
             (agents (orch st)) \<and>
         conversation_history (orch (run_agents proc now req workflow st))
           = conversation_history (orch st) \<and>
         session_id (orch (run_agents proc now req workflow st)) = session_id (orch st)"
proof (induction workflow arbitrary: st)
  case Nil
  then show ?case by simp
next
  case (Cons ty workflow)
  show ?case
  proof (cases "ty \<in> set (agents_enabled req)")
    case False
    then show ?thesis using Cons by simp
  next
    case True
    let ?call = "proc (length (invoked st)) (agents (orch st) ty) (prompt req)
        (prepare_context (orch st) req (agent_responses st)) (conversation_history (orch st))"
    let ?st1 = "st\<lparr> orch := (orch st)\<lparr> agents := (agents (orch st))(ty := fst ?call) \<rparr>,
                   invoked := invoked st @ [ty] \<rparr>"
    from f obtain e where e: "snd ?call = Inl e"
      unfolding always_fails_def by blast
    have step: "run_agents proc now req (ty # workflow) st = run_agents proc now req workflow ?st1"
      using True e by (rule run_agents_step_raises)
    have ih: "agents (orch (run_agents proc now req workflow ?st1)) =
           failed_calls proc (prompt req) (prepare_context (orch st) req (agent_responses st))
             (conversation_history (orch st))
             (filter (\<lambda>t. t \<in> set (agents_enabled req)) workflow) (Suc (length (invoked st)))
             ((agents (orch st))(ty := fst ?call)) \<and>
         conversation_history (orch (run_agents proc now req workflow ?st1))
           = conversation_history (orch st) \<and>
         session_id (orch (run_agents proc now req workflow ?st1)) = session_id (orch st)"
      using Cons.IH [of ?st1] by (simp add: prepare_context_agents fun_upd_def)
    show ?thesis
      unfolding step using ih True by simp
  qed
qed

lemma iterate_all_fail:
  assumes f: "always_fails proc" and m: "max_iterations req = int m"
  shows "agent_responses st = [] \<Longrightarrow> k \<le> m \<Longrightarrow> n = m - k \<Longrightarrow>
     agents (orch (iterate proc now req workflow (map int [k..<m]) st)) =
       failed_calls proc (prompt req) (prepare_context (orch st) req [])
         (conversation_history (orch st))
         (concat (replicate n (filter (\<lambda>t. t \<in> set (agents_enabled req)) workflow)))
         (length (invoked st)) (agents (orch st)) \<and>
     conversation_history (orch (iterate proc now req workflow (map int [k..<m]) st))
       = conversation_history (orch st)"
proof (induction n arbitrary: k st)
  case 0
  then show ?case by simp
next
  case (Suc n)
  then have km: "k < m" by simp
  let ?F = "filter (\<lambda>t. t \<in> set (agents_enabled req)) workflow"
  let ?st1 = "st\<lparr> orch := (orch st)\<lparr> total_iterations := total_iterations (orch st) + 1 \<rparr> \<rparr>"
  let ?st2 = "run_agents proc now req workflow ?st1"
  have r2: "agent_responses ?st2 = []"
    using run_agents_always_fails [OF f, of now req workflow ?st1] Suc.prems(1) by simp
  have i2: "invoked ?st2 = invoked st @ ?F"
    using run_agents_always_fails [OF f, of now req workflow ?st1] by simp
  have a2: "agents (orch ?st2) =
      failed_calls proc (prompt req) (prepare_context (orch st) req []) (conversation_history (orch st))
        ?F (length (invoked st)) (agents (orch st))"
    and h2: "conversation_history (orch ?st2) = conversation_history (orch st)"
    and s2: "session_id (orch ?st2) = session_id (orch st)"
    using run_agents_all_fail [OF f, of now req workflow ?st1] Suc.prems(1)
    by (simp_all add: prepare_context_total_iterations)
  have c2: "prepare_context (orch ?st2) req [] = prepare_context (orch st) req []"
    using s2 by (simp add: prepare_context_def)
  have up: "map int [k..<m] = int k # map int [Suc k..<m]"
    using km by (simp add: upt_conv_Cons)
  show ?case
  proof (cases "Suc k < m")
    case True
    then have sc: "should_continue (agent_responses ?st2) (int k) (max_iterations req)"
      using r2 by (simp add: should_continue_def m)
    have e: "iterate proc now req workflow (map int [k..<m]) st
               = iterate proc now req workflow (map int [Suc k..<m]) ?st2"
      unfolding up using sc by (simp add: Let_def)
    have "n = m - Suc k" using Suc.prems by simp
    from Suc.IH [OF r2 _ this] True
    have "agents (orch (iterate proc now req workflow (map int [Suc k..<m]) ?st2)) =
       failed_calls proc (prompt req) (prepare_context (orch ?st2) req [])
         (conversation_history (orch ?st2)) (concat (replicate n ?F))
         (length (invoked ?st2)) (agents (orch ?st2)) \<and>
     conversation_history (orch (iterate proc now req workflow (map int [Suc k..<m]) ?st2))
       = conversation_history (orch ?st2)"
      by simp
    then have "agents (orch (iterate proc now req workflow (map int [Suc k..<m]) ?st2)) =
       failed_calls proc (prompt req) (prepare_context (orch st) req [])
         (conversation_history (orch st)) (concat (replicate n ?F))
         (length (invoked st @ ?F))
         (failed_calls proc (prompt req) (prepare_context (orch st) req [])
            (conversation_history (orch st)) ?F (length (invoked st)) (agents (orch st))) \<and>
     conversation_history (orch (iterate proc now req workflow (map int [Suc k..<m]) ?st2))
       = conversation_history (orch st)"
      unfolding c2 h2 i2 a2 .
    then show ?thesis
      unfolding e by (simp add: failed_calls_append)
  next
    case False
    then have mk: "m = Suc k" using km by simp
    then have "n = 0" using Suc.prems by simp
    have "\<not> should_continue (agent_responses ?st2) (int k) (max_iterations req)"
      by (simp add: should_continue_def mk m)
    then have "iterate proc now req workflow (map int [k..<m]) st = ?st2"
      unfolding up by (simp add: Let_def)
    then show ?thesis using \<open>n = 0\<close> a2 h2 by simp
  qed
qed

lemma process_request_synthesis:
  fixes proc :: agent_process and llm :: completion and now :: string and req :: AuraRequest
    and oc :: AuraOrchestrator and elapsed :: int
  defines "st \<equiv> iterate proc now req (determine_workflow req) (py_range (max_iterations req))
        \<lparr> orch = oc\<lparr> conversation_history := conversation_history oc @ [user_message now req] \<rparr>,
          agent_responses = [], invoked = [] \<rparr>"
  defines "syn \<equiv> synthesizer_process llm now (real_of_int elapsed / 1000)
        ''Synthesize all agent outputs into final response''
        (Some (synthesis_context_of req (agent_responses st)))
        (conversation_history (orch st)) (agents (orch st) SYNTHESIZER)"
  shows "agents (final_orch (process_request proc llm quantum now elapsed req oc))
           = (agents (orch st))(SYNTHESIZER := fst syn)"
    and "snd syn = Inl e \<Longrightarrow> outcome (process_request proc llm quantum now elapsed req oc) = Inl e"
    and "snd syn = Inr final \<Longrightarrow>
           \<exists>resp. outcome (process_request proc llm quantum now elapsed req oc) = Inr resp \<and>
             final_response resp = response final \<and>
             aura_agent_responses resp = agent_responses st @ [final] \<and>
             aura_total_iterations resp = total_iterations (orch st)"
proof -
  obtain a' res where "syn = (a', res)"
    by (cases syn)
  then have p: "synthesizer_process llm now (real_of_int elapsed / 1000)
        ''Synthesize all agent outputs into final response''
        (Some (synthesis_context_of req (agent_responses st)))
        (conversation_history (orch st)) (agents (orch st) SYNTHESIZER) = (a', res)"
    unfolding syn_def .
  have s: "fst syn = a'" "snd syn = res"
    using \<open>syn = (a', res)\<close> by simp_all
  show "agents (final_orch (process_request proc llm quantum now elapsed req oc))
           = (agents (orch st))(SYNTHESIZER := fst syn)"
    unfolding s using p unfolding st_def
    by (cases res) (simp_all add: process_request_def Let_def split: prod.splits)
  show "outcome (process_request proc llm quantum now elapsed req oc) = Inl e"
    if "snd syn = Inl e"
    using that p unfolding s st_def
    by (simp add: process_request_def Let_def)
  show "\<exists>resp. outcome (process_request proc llm quantum now elapsed req oc) = Inr resp \<and>
             final_response resp = response final \<and>
             aura_agent_responses resp = agent_responses st @ [final] \<and>
             aura_total_iterations resp = total_iterations (orch st)"
    if "snd syn = Inr final"
    using that p unfolding s st_def
    by (simp add: process_request_def Let_def split: prod.splits)
qed

text \<open>
  Claim C5.  For a request with \<open>max_iterations\<close> between 1 and 20,
  \<open>process_request\<close> runs at least one and at most \<open>max_iterations\<close> passes of the
  workflow loop (each pass increments the iteration counter once).  After the loop the
  synthesizer's \<open>process\<close> is applied exactly once: the loop leaves the synthesizer agent
  untouched, the synthesizer agent of the resulting orchestrator is the one that a single
  \<open>process\<close> call on the collected responses leaves, every other agent is as the loop left
  it, and the outcome of the request is the outcome of that call (its exception, or a
  response whose final text is the synthesizer's and whose list of responses is the
  collected ones followed by the synthesizer's).  An agent call that raises is caught: the
  agent is left as the call left it and the loop goes on with the remaining agents of the
  workflow.  When every agent call raises, every enabled agent of the workflow is still
  called in every one of the \<open>max_iterations\<close> passes, no response is collected, and the
  synthesizer is called once after them.
\<close>

theorem process_request_bounded_and_synthesizes:
  fixes proc :: agent_process and llm :: completion
    and quantum :: "(string \<times> real) list option \<times> string option"
    and now :: string and elapsed :: int and req :: AuraRequest and oc :: AuraOrchestrator
  defines "r \<equiv> process_request proc llm quantum now elapsed req oc"
  defines "st \<equiv> iterate proc now req (determine_workflow req) (py_range (max_iterations req))
        \<lparr> orch = oc\<lparr> conversation_history := conversation_history oc @ [user_message now req] \<rparr>,
          agent_responses = [], invoked = [] \<rparr>"
  defines "syn \<equiv> synthesizer_process llm now (real_of_int elapsed / 1000)
        ''Synthesize all agent outputs into final response''
        (Some (synthesis_context_of req (agent_responses st)))
        (conversation_history (orch st)) (agents oc SYNTHESIZER)"
  assumes "1 \<le> max_iterations req" and "max_iterations req \<le> 20"
  shows "total_iterations (final_orch r) \<le> total_iterations oc + nat (max_iterations req) \<and>
         total_iterations oc + 1 \<le> total_iterations (final_orch r) \<and>
         count_list (calls r) SYNTHESIZER = 1 \<and>
         last (calls r) = SYNTHESIZER \<and>
         agents (final_orch r) SYNTHESIZER = fst syn \<and>
         (\<forall>ty. ty \<noteq> SYNTHESIZER \<longrightarrow> agents (final_orch r) ty = agents (orch st) ty) \<and>
         (\<forall>e. snd syn = Inl e \<longrightarrow> outcome r = Inl e) \<and>
         (\<forall>final. snd syn = Inr final \<longrightarrow>
            (\<exists>resp. outcome r = Inr resp \<and>
               final_response resp = response final \<and>
               aura_agent_responses resp = agent_responses st @ [final] \<and>
               aura_total_iterations resp = total_iterations (final_orch r))) \<and>
         (\<forall>s ty remaining e.
            ty \<in> set (agents_enabled req) \<and>
            snd (proc (length (invoked s)) (agents (orch s) ty) (prompt req)
                   (prepare_context (orch s) req (agent_responses s))
                   (conversation_history (orch s))) = Inl e \<longrightarrow>
            run_agents proc now req (ty # remaining) s =
              run_agents proc now req remaining
                (s\<lparr> orch := (orch s)\<lparr> agents := (agents (orch s))
                         (ty := fst (proc (length (invoked s)) (agents (orch s) ty) (prompt req)
                                      (prepare_context (orch s) req (agent_responses s))
                                      (conversation_history (orch s)))) \<rparr>,
                     invoked := invoked s @ [ty] \<rparr>)) \<and>
         (always_fails proc \<longrightarrow>
            calls r
              = concat (replicate (nat (max_iterations req))
                  (filter (\<lambda>t. t \<in> set (agents_enabled req)) (determine_workflow req)))
                @ [SYNTHESIZER] \<and>
            total_iterations (final_orch r) = total_iterations oc + nat (max_iterations req) \<and>
            agent_responses st = [] \<and>
            (\<forall>ty. ty \<noteq> SYNTHESIZER \<longrightarrow>
               agents (final_orch r) ty =
                 failed_calls proc (prompt req) (prepare_context oc req [])
                   (conversation_history oc @ [user_message now req])
                   (concat (replicate (nat (max_iterations req))
                      (filter (\<lambda>t. t \<in> set (agents_enabled req)) (determine_workflow req))))
                   0 (agents oc) ty))"
proof -
  let ?ini = "\<lparr> orch = oc\<lparr> conversation_history := conversation_history oc @ [user_message now req] \<rparr>,
                agent_responses = [], invoked = [] \<rparr>"
  let ?w = "determine_workflow req"
  let ?F = "filter (\<lambda>t. t \<in> set (agents_enabled req)) ?w"
  have c: "calls r = invoked st @ [SYNTHESIZER]"
    unfolding r_def st_def by (rule process_request_calls)
  have t: "total_iterations (final_orch r) = total_iterations (orch st)"
    unfolding r_def st_def by (rule process_request_total_iterations)
  have ne: "py_range (max_iterations req) \<noteq> []"
    using assms(4) py_range_length [of "max_iterations req"] by auto
  have le: "total_iterations (orch st) \<le> total_iterations oc + nat (max_iterations req)"
    unfolding st_def
    using iterate_total_iterations_le [of proc now req ?w "py_range (max_iterations req)" ?ini]
    by (simp add: py_range_length)
  have ge: "total_iterations oc + 1 \<le> total_iterations (orch st)"
    unfolding st_def
    using iterate_total_iterations_ge [of "py_range (max_iterations req)" ?ini proc now req ?w] ne
    by simp
  have cnt: "count_list (invoked st) SYNTHESIZER = 0"
    unfolding st_def
    using iterate_invoked_count [of ?w proc now req "py_range (max_iterations req)" ?ini]
      determine_workflow_no_synthesizer [of req]
    by simp
  have keep: "agents (orch st) SYNTHESIZER = agents oc SYNTHESIZER"
    unfolding st_def
    using iterate_agents_other [of SYNTHESIZER ?w proc now req "py_range (max_iterations req)" ?ini]
      determine_workflow_no_synthesizer [of req]
    by simp
  have syn: "syn = synthesizer_process llm now (real_of_int elapsed / 1000)
        ''Synthesize all agent outputs into final response''
        (Some (synthesis_context_of req (agent_responses st)))
        (conversation_history (orch st)) (agents (orch st) SYNTHESIZER)"
    unfolding syn_def keep ..
  have ag: "agents (final_orch r) = (agents (orch st))(SYNTHESIZER := fst syn)"
    unfolding r_def syn st_def by (rule process_request_synthesis(1))
  have err: "outcome r = Inl e" if "snd syn = Inl e" for e
    using that unfolding r_def syn st_def by (rule process_request_synthesis(2))
  have res: "\<exists>resp. outcome r = Inr resp \<and> final_response resp = response fr \<and>
               aura_agent_responses resp = agent_responses st @ [fr] \<and>
               aura_total_iterations resp = total_iterations (orch st)"
    if "snd syn = Inr fr" for fr
    using that unfolding r_def syn st_def by (rule process_request_synthesis(3))
  have step: "run_agents proc now req (ty # remaining) s =
              run_agents proc now req remaining
                (s\<lparr> orch := (orch s)\<lparr> agents := (agents (orch s))
                         (ty := fst (proc (length (invoked s)) (agents (orch s) ty) (prompt req)
                                      (prepare_context (orch s) req (agent_responses s))
                                      (conversation_history (orch s)))) \<rparr>,
                     invoked := invoked s @ [ty] \<rparr>)"
    if "ty \<in> set (agents_enabled req) \<and>
        snd (proc (length (invoked s)) (agents (orch s) ty) (prompt req)
               (prepare_context (orch s) req (agent_responses s))
               (conversation_history (orch s))) = Inl e"
    for s ty remaining e
    using that run_agents_step_raises [of ty req proc s e now remaining] by blast
  have fails: "invoked st = concat (replicate (nat (max_iterations req)) ?F) \<and>
               total_iterations (orch st) = total_iterations oc + nat (max_iterations req) \<and>
               agent_responses st = [] \<and>
               agents (orch st) =
                 failed_calls proc (prompt req) (prepare_context oc req [])
                   (conversation_history oc @ [user_message now req])
                   (concat (replicate (nat (max_iterations req)) ?F)) 0 (agents oc)"
    if f: "always_fails proc"
  proof -
    have m: "max_iterations req = int (nat (max_iterations req))"
      using assms(4) by simp
    have e: "agent_responses ?ini = []" by simp
    have p: "prepare_context (orch ?ini) req [] = prepare_context oc req []"
      by (simp add: prepare_context_def)
    from iterate_always_fails [OF f m e, of 0 "nat (max_iterations req)" now ?w]
    have a: "invoked st = concat (replicate (nat (max_iterations req)) ?F) \<and>
             total_iterations (orch st) = total_iterations oc + nat (max_iterations req) \<and>
             agent_responses st = []"
      unfolding st_def by (simp add: py_range_def)
    from iterate_all_fail [OF f m e, of 0 "nat (max_iterations req)" now ?w]
    have "agents (orch st) =
            failed_calls proc (prompt req) (prepare_context (orch ?ini) req [])
              (conversation_history (orch ?ini))
              (concat (replicate (nat (max_iterations req)) ?F)) (length (invoked ?ini))
              (agents (orch ?ini))"
      unfolding st_def by (simp add: py_range_def)
    then have "agents (orch st) =
            failed_calls proc (prompt req) (prepare_context oc req [])
              (conversation_history oc @ [user_message now req])
              (concat (replicate (nat (max_iterations req)) ?F)) 0 (agents oc)"
      unfolding p by simp
    with a show ?thesis by simp
  qed
  have le': "total_iterations (final_orch r) \<le> total_iterations oc + nat (max_iterations req)"
    using le t by simp
  have ge': "total_iterations oc + 1 \<le> total_iterations (final_orch r)"
    using ge t by simp
  have cnt': "count_list (calls r) SYNTHESIZER = 1"
    using cnt c by simp
  have last': "last (calls r) = SYNTHESIZER"
    using c by simp
  have agS: "agents (final_orch r) SYNTHESIZER = fst syn"
    using ag by simp
  have agO: "\<forall>ty. ty \<noteq> SYNTHESIZER \<longrightarrow> agents (final_orch r) ty = agents (orch st) ty"
    using ag by simp
  have err': "\<forall>e. snd syn = Inl e \<longrightarrow> outcome r = Inl e"
    using err by blast
  have res': "\<forall>final. snd syn = Inr final \<longrightarrow>
            (\<exists>resp. outcome r = Inr resp \<and>
               final_response resp = response final \<and>
               aura_agent_responses resp = agent_responses st @ [final] \<and>
               aura_total_iterations resp = total_iterations (final_orch r))"
    using res t by simp
  have step': "\<forall>s ty remaining e.
            ty \<in> set (agents_enabled req) \<and>
            snd (proc (length (invoked s)) (agents (orch s) ty) (prompt req)
                   (prepare_context (orch s) req (agent_responses s))
                   (conversation_history (orch s))) = Inl e \<longrightarrow>
            run_agents proc now req (ty # remaining) s =
              run_agents proc now req remaining
                (s\<lparr> orch := (orch s)\<lparr> agents := (agents (orch s))
                         (ty := fst (proc (length (invoked s)) (agents (orch s) ty) (prompt req)
                                      (prepare_context (orch s) req (agent_responses s))
                                      (conversation_history (orch s)))) \<rparr>,
                     invoked := invoked s @ [ty] \<rparr>)"
    using step by blast
  have fails': "always_fails proc \<longrightarrow>
            calls r = concat (replicate (nat (max_iterations req)) ?F) @ [SYNTHESIZER] \<and>
            total_iterations (final_orch r) = total_iterations oc + nat (max_iterations req) \<and>
            agent_responses st = [] \<and>
            (\<forall>ty. ty \<noteq> SYNTHESIZER \<longrightarrow>
               agents (final_orch r) ty =
                 failed_calls proc (prompt req) (prepare_context oc req [])
                   (conversation_history oc @ [user_message now req])
                   (concat (replicate (nat (max_iterations req)) ?F)) 0 (agents oc) ty)"
    using fails c t ag by simp
  show ?thesis
    by (intro conjI le' ge' cnt' last' agS agO err' res' step' fails')
qed

theorem process_request_bounded_and_synthesizes_witness:
  "1 \<le> max_iterations (request_with ''build me a login page'' 1) \<and>
   max_iterations (request_with ''build me a login page'' 1) \<le> 20 \<and>
   always_fails failing_process \<and>
   calls (process_request failing_process (constant_completion ''answer'') (None, None) ''t1'' 7
            (request_with ''build me a login page'' 1) example_orchestrator)
     = [ARCHITECT, ENGINEER, REVIEWER, SYNTHESIZER] \<and>
   total_iterations (final_orch
     (process_request failing_process (constant_completion ''answer'') (None, None) ''t1'' 7
            (request_with ''build me a login page'' 1) example_orchestrator)) = 1 \<and>
   map_sum id final_response (outcome
     (process_request failing_process (constant_completion ''answer'') (None, None) ''t1'' 7
            (request_with ''build me a login page'' 1) example_orchestrator)) = Inr ''answer'' \<and>
   map status (map (agents (final_orch
     (process_request failing_process (constant_completion ''answer'') (None, None) ''t1'' 7
            (request_with ''build me a login page'' 1) example_orchestrator))) agent_types)
     = [ERROR, ERROR, ERROR, IDLE, IDLE, COMPLETED]"
proof -
  let ?req = "request_with ''build me a login page'' 1"
  let ?r = "process_request failing_process (constant_completion ''answer'') (None, None) ''t1'' 7
              ?req example_orchestrator"
  have h1: "1 \<le> max_iterations ?req"
    by (simp add: request_with_def)
  have h2: "max_iterations ?req \<le> 20"
    by (simp add: request_with_def)
  have f: "always_fails failing_process"
    by (simp add: always_fails_def failing_process_def)
  have w: "determine_workflow ?req = [ARCHITECT, ENGINEER, REVIEWER]"
    by (simp add: determine_workflow_def Let_def any_keyword_def debugging_keywords_def
        review_keywords_def research_keywords_def request_with_def lower_def lower_char_def)
  have e: "agents_enabled ?req = agent_types"
    by (simp add: request_with_def)
  have m: "max_iterations ?req = 1"
    by (simp add: request_with_def)
  have t0: "total_iterations example_orchestrator = 0"
    by (simp add: example_orchestrator_def init_orchestrator_def)
  let ?st = "iterate failing_process ''t1'' ?req (determine_workflow ?req)
        (py_range (max_iterations ?req))
        \<lparr> orch = example_orchestrator\<lparr> conversation_history :=
                   conversation_history example_orchestrator @ [user_message ''t1'' ?req] \<rparr>,
          agent_responses = [], invoked = [] \<rparr>"
  let ?syn = "synthesizer_process (constant_completion ''answer'') ''t1'' (real_of_int 7 / 1000)
        ''Synthesize all agent outputs into final response''
        (Some (synthesis_context_of ?req (agent_responses ?st)))
        (conversation_history (orch ?st)) (agents example_orchestrator SYNTHESIZER)"
  note inst = process_request_bounded_and_synthesizes [where proc = failing_process
      and llm = "constant_completion ''answer''" and quantum = "(None, None)" and now = "''t1''"
      and elapsed = 7 and req = "?req" and oc = example_orchestrator, OF h1 h2]
  from inst f have c: "calls ?r = [ARCHITECT, ENGINEER, REVIEWER, SYNTHESIZER]"
    by (simp add: w e m agent_types_def)
  from inst f have t: "total_iterations (final_orch ?r) = 1"
    by (simp add: m t0)
  obtain fr where fin: "snd ?syn = Inr fr" and answer: "response fr = ''answer''"
    using synthesizer_process_succeeds [of "constant_completion ''answer''"
        "conversation_history (orch ?st)" "''Synthesize all agent outputs into final response''"
        "Some (synthesis_context_of ?req (agent_responses ?st))" "''answer''"
        "''t1''" "real_of_int 7 / 1000" "agents example_orchestrator SYNTHESIZER"]
    by (auto simp add: constant_completion_def)
  from inst fin obtain resp where "outcome ?r = Inr resp" and "final_response resp = response fr"
    by blast
  then have o: "map_sum id final_response (outcome ?r) = Inr ''answer''"
    using answer by simp
  have completed: "status (fst ?syn) = COMPLETED"
    using fin by (rule synthesizer_process_status)
  from inst [THEN conjunct2, THEN conjunct2, THEN conjunct2, THEN conjunct2, THEN conjunct1]
  have sy: "agents (final_orch ?r) SYNTHESIZER = fst ?syn" .
  note all_fail = inst [THEN conjunct2, THEN conjunct2, THEN conjunct2, THEN conjunct2,
      THEN conjunct2, THEN conjunct2, THEN conjunct2, THEN conjunct2, THEN conjunct2, THEN mp, OF f]
  from all_fail [THEN conjunct2, THEN conjunct2, THEN conjunct2]
  have others: "\<forall>ty. ty \<noteq> SYNTHESIZER \<longrightarrow>
      agents (final_orch ?r) ty =
        failed_calls failing_process (prompt ?req) (prepare_context example_orchestrator ?req [])
          (conversation_history example_orchestrator @ [user_message ''t1'' ?req])
          [ARCHITECT, ENGINEER, REVIEWER] 0 (agents example_orchestrator) ty"
    by (simp add: w e m agent_types_def)
  have s: "map status (map (agents (final_orch ?r)) agent_types)
             = [ERROR, ERROR, ERROR, IDLE, IDLE, COMPLETED]"
    using others sy completed
    by (simp add: agent_types_def failing_process_def example_orchestrator_def
          init_orchestrator_def init_agent_def)
  show ?thesis
    using h1 h2 f c t o s by simp
qed

theorem stopping_policy_witness:
  "agent_responses (run_agents (fixed_process (95 / 100)) ''t1'' (request_with ''please fix this error'' 5)
       [DEBUGGER, ENGINEER, REVIEWER]
       (example_run_state\<lparr> orch := (orch example_run_state)
           \<lparr> total_iterations := total_iterations (orch example_run_state) + 1 \<rparr> \<rparr>)) \<noteq> [] \<and>
   confidence (last (agent_responses (run_agents (fixed_process (95 / 100)) ''t1''
       (request_with ''please fix this error'' 5) [DEBUGGER, ENGINEER, REVIEWER]
       (example_run_state\<lparr> orch := (orch example_run_state)
           \<lparr> total_iterations := total_iterations (orch example_run_state) + 1 \<rparr> \<rparr>)))) = 95 / 100 \<and>
   total_iterations (orch (iterate (fixed_process (95 / 100)) ''t1''
       (request_with ''please fix this error'' 5) [DEBUGGER, ENGINEER, REVIEWER]
       (py_range 5) example_run_state)) = 1 \<and>
   total_iterations (orch (iterate (fixed_process (5 / 10)) ''t1''
       (request_with ''please fix this error'' 2) [DEBUGGER, ENGINEER, REVIEWER]
       (py_range 2) example_run_state)) = 2 \<and>
   total_iterations (orch (iterate failing_process ''t1''
       (request_with ''please fix this error'' 3) [DEBUGGER, ENGINEER, REVIEWER]
       (py_range 3) example_run_state)) = 3"
proof -
  let ?req = "request_with ''please fix this error'' 5"
  let ?p = "fixed_process (95 / 100)"
  let ?s1 = "example_run_state\<lparr> orch := (orch example_run_state)
           \<lparr> total_iterations := total_iterations (orch example_run_state) + 1 \<rparr> \<rparr>"
  have rs: "map confidence (agent_responses (run_agents ?p ''t1'' ?req [DEBUGGER, ENGINEER, REVIEWER] ?s1))
              = [95 / 100, 95 / 100, 95 / 100]"
    by (simp add: request_with_def agent_types_def fixed_process_def new_AgentResponse_def
          example_run_state_def Let_def)
  have h2: "agent_responses (run_agents ?p ''t1'' ?req [DEBUGGER, ENGINEER, REVIEWER] ?s1) \<noteq> []"
    using rs by auto
  have h3: "confidence (last (agent_responses (run_agents ?p ''t1'' ?req [DEBUGGER, ENGINEER, REVIEWER] ?s1)))
              = 95 / 100"
    using rs h2 last_map [of "agent_responses (run_agents ?p ''t1'' ?req [DEBUGGER, ENGINEER, REVIEWER] ?s1)" confidence]
    by simp
  have t0: "total_iterations (orch example_run_state) = 0"
    by (simp add: example_run_state_def example_orchestrator_def init_orchestrator_def)
  from stopping_policy [where proc = "?p" and now = "''t1''" and req = "?req"
      and workflow = "[DEBUGGER, ENGINEER, REVIEWER]" and st = example_run_state and i = 0
      and rest = "[1, 2, 3, 4]"] h2 h3
  have stop: "total_iterations (orch (iterate ?p ''t1'' ?req [DEBUGGER, ENGINEER, REVIEWER] (0 # [1, 2, 3, 4])
          example_run_state)) = total_iterations (orch example_run_state) + 1"
    by blast
  have low: "total_iterations (orch (iterate (fixed_process (5 / 10)) ''t1''
       (request_with ''please fix this error'' 2) [DEBUGGER, ENGINEER, REVIEWER]
       (py_range 2) example_run_state)) = 2"
    by (simp add: py_range_def upt_rec request_with_def agent_types_def fixed_process_def
          new_AgentResponse_def example_run_state_def example_orchestrator_def
          init_orchestrator_def Let_def should_continue_def)
  have none: "total_iterations (orch (iterate failing_process ''t1''
       (request_with ''please fix this error'' 3) [DEBUGGER, ENGINEER, REVIEWER]
       (py_range 3) example_run_state)) = 3"
    by (simp add: py_range_def upt_rec request_with_def agent_types_def failing_process_def
          example_run_state_def example_orchestrator_def init_orchestrator_def Let_def
          should_continue_def)
  show ?thesis
    using stop low none h2 h3 t0 by (simp add: py_range_5)
qed

lemma synthesizer_process_example:
  "snd (synthesizer_process (constant_completion ''ok'') ''t1'' 0 ''task''
     (Some \<lparr> ctx_agent_responses = Some [\<lparr> out_agent_type = ''engineer'', out_response = ''code'',
          out_confidence = 8 / 10, out_metrics = None \<rparr>], ctx_rest = [] \<rparr>) []
     (init_agent ''synthesizer_1'' SYNTHESIZER None ''t0''))
    = Inr \<lparr> resp_agent_id = ''synthesizer_1'', resp_agent_type = SYNTHESIZER, response = ''ok'',
            confidence = 3 / 4,
            metrics = Some [(''execution_time'', 0), (''quality'', 3 / 4),
                            (''agents_synthesized'', 1), (''response_length'', 2)],
            trace = Some \<lparr> trace_timestamp = ''t1'', trace_agent_id = ''synthesizer_1'',
                           trace_agent_type = SYNTHESIZER, action = ''complete_synthesis'',
                           input_data = None,
                           output_data = Some [(''quality'', PyFloat (3 / 4)), (''agent_count'', PyInt 1)],
                           trace_error = None,
                           trace_metrics = Some [(''execution_time'', 0), (''quality'', 3 / 4)] \<rparr> \<rparr>"
  by (simp add: synthesizer_process_def Let_def new_AgentResponse_def agent_outputs_of_def
       constant_completion_def synthesis_quality_def init_agent_def add_trace_def update_memory_def
       update_w2_optimization_def)

section \<open>Properties of the connection manager\<close>

lemma delivered_disconnect: "delivered (disconnect ws sid m) = delivered m"
  by (simp add: disconnect_def split: option.splits)

lemma active_disconnect:
  "active_connections (disconnect ws sid m) sid' =
     (if sid' = sid
      then (case active_connections m sid of None \<Rightarrow> None | Some S \<Rightarrow> nonempty (S - {ws}))
      else active_connections m sid')"
  by (simp add: disconnect_def nonempty_def split: option.splits)

lemma broadcast_step_delivered:
  "delivered (case send_json fails msg c m of Inl e \<Rightarrow> disconnect c sid m | Inr m' \<Rightarrow> m') d =
     (if d = c \<and> \<not> fails c then delivered m d @ [msg] else delivered m d)"
  by (simp add: send_json_def delivered_disconnect)

lemma broadcast_step_active:
  "active_connections (case send_json fails msg c m of Inl e \<Rightarrow> disconnect c sid m | Inr m' \<Rightarrow> m') sid' =
     (if fails c then active_connections (disconnect c sid m) sid' else active_connections m sid')"
  by (simp add: send_json_def)

lemma broadcast_loop_delivered:
  "distinct cs \<Longrightarrow>
   delivered (broadcast_loop fails msg sid cs m) d =
     (if d \<in> set cs \<and> \<not> fails d then delivered m d @ [msg] else delivered m d)"
proof (induction cs arbitrary: m)
  case Nil
  then show ?case by simp
next
  case (Cons c cs)
  let ?m1 = "case send_json fails msg c m of Inl e \<Rightarrow> disconnect c sid m | Inr m' \<Rightarrow> m'"
  have "delivered (broadcast_loop fails msg sid (c # cs) m) d
          = delivered (broadcast_loop fails msg sid cs ?m1) d"
    by simp
  also have "\<dots> = (if d \<in> set cs \<and> \<not> fails d then delivered ?m1 d @ [msg] else delivered ?m1 d)"
    using Cons by simp
  finally show ?case
    using Cons.prems by (auto simp add: broadcast_step_delivered)
qed

lemma broadcast_loop_active_other:
  "sid' \<noteq> sid \<Longrightarrow>
   active_connections (broadcast_loop fails msg sid cs m) sid' = active_connections m sid'"
  by (induction cs arbitrary: m) (simp_all add: broadcast_step_active active_disconnect)

lemma broadcast_loop_active_None:
  "active_connections m sid = None \<Longrightarrow>
   active_connections (broadcast_loop fails msg sid cs m) sid = None"
  by (induction cs arbitrary: m) (simp_all add: broadcast_step_active active_disconnect)

lemma broadcast_loop_active:
  "active_connections m sid = Some S \<Longrightarrow>
   active_connections (broadcast_loop fails msg sid cs m) sid =
     (if \<exists>c \<in> set cs. fails c then nonempty (S - {c \<in> set cs. fails c}) else Some S)"
proof (induction cs arbitrary: m S)
  case Nil
  then show ?case by simp
next
  case (Cons c cs)
  let ?m1 = "case send_json fails msg c m of Inl e \<Rightarrow> disconnect c sid m | Inr m' \<Rightarrow> m'"
  have step: "broadcast_loop fails msg sid (c # cs) m = broadcast_loop fails msg sid cs ?m1"
    by simp
  show ?case
  proof (cases "fails c")
    case False
    then have "active_connections ?m1 sid = Some S"
      using Cons.prems by (simp add: broadcast_step_active)
    from Cons.IH [OF this] False show ?thesis
      unfolding step by (auto intro!: arg_cong [where f = nonempty])
  next
    case True
    then have a1: "active_connections ?m1 sid = nonempty (S - {c})"
      using Cons.prems by (simp add: broadcast_step_active active_disconnect)
    have sets: "S - {c} - {x \<in> set cs. fails x} = S - {x \<in> set (c # cs). fails x}"
      using True by auto
    show ?thesis
    proof (cases "S - {c} = {}")
      case e: True
      then have "active_connections ?m1 sid = None"
        using a1 by (simp add: nonempty_def)
      then have "active_connections (broadcast_loop fails msg sid cs ?m1) sid = None"
        by (rule broadcast_loop_active_None)
      moreover have "S - {x \<in> set (c # cs). fails x} = {}"
        using e sets by blast
      ultimately show ?thesis
        unfolding step using True by (simp add: nonempty_def)
    next
      case ne: False
      then have "active_connections ?m1 sid = Some (S - {c})"
        using a1 by (simp add: nonempty_def)
      from Cons.IH [OF this] show ?thesis
        unfolding step using True ne sets by (auto simp add: nonempty_def)
    qed
  qed
qed

lemma registry_ok_disconnect: "registry_ok m \<Longrightarrow> registry_ok (disconnect ws sid m)"
  unfolding registry_ok_def
  by (auto simp add: active_disconnect nonempty_def split: option.splits if_splits)

lemma registry_ok_connect:
  assumes ok: "registry_ok m" and c: "connect accepted ws sid m = Inr m'"
  shows "registry_ok m'"
proof -
  obtain T where T: "T = (case active_connections m sid of None \<Rightarrow> {} | Some S \<Rightarrow> S)"
    by simp
  have fin: "finite T"
    using ok unfolding T registry_ok_def by (cases "active_connections m sid") auto
  from c have a: "active_connections m' = (active_connections m)(sid \<mapsto> insert ws T)"
    unfolding T by (auto simp add: connect_def Let_def split: if_splits)
  show ?thesis
    unfolding registry_ok_def
  proof (intro allI impI)
    fix s S
    assume s: "active_connections m' s = Some S"
    show "S \<noteq> {} \<and> finite S"
    proof (cases "s = sid")
      case True
      then have "S = insert ws T" using s a by simp
      then show ?thesis using fin by simp
    next
      case False
      then have "active_connections m s = Some S" using s a by simp
      then show ?thesis using ok unfolding registry_ok_def by blast
    qed
  qed
qed

lemma registry_ok_broadcast_loop: "registry_ok m \<Longrightarrow> registry_ok (broadcast_loop fails msg sid cs m)"
proof (induction cs arbitrary: m)
  case Nil
  then show ?case by simp
next
  case (Cons c cs)
  have "registry_ok (case send_json fails msg c m of Inl e \<Rightarrow> disconnect c sid m | Inr m' \<Rightarrow> m')"
    using Cons.prems registry_ok_disconnect [of m c sid]
    by (simp add: send_json_def registry_ok_def)
  then show ?case using Cons.IH by simp
qed

lemma registry_ok_apply_op: "registry_ok m \<Longrightarrow> registry_ok (apply_op to_list op m)"
proof (cases op)
  case (Connect accepted ws sid)
  assume "registry_ok m"
  then show ?thesis
    using Connect registry_ok_connect [of m accepted ws sid]
    by (cases "connect accepted ws sid m") simp_all
next
  case (Disconnect ws sid)
  assume "registry_ok m"
  then show ?thesis using Disconnect by (simp add: registry_ok_disconnect)
next
  case (Broadcast fails msg sid)
  assume "registry_ok m"
  then show ?thesis using Broadcast
    by (simp add: broadcast_to_session_def registry_ok_broadcast_loop split: option.splits)
qed

lemma registry_ok_apply_ops: "registry_ok m \<Longrightarrow> registry_ok (apply_ops to_list ops m)"
  unfolding apply_ops_def
  by (induction ops arbitrary: m) (simp_all add: registry_ok_apply_op)

lemma registry_ok_init: "registry_ok init_manager"
  by (simp add: registry_ok_def init_manager_def)

lemma disconnect_unregistered:
  assumes "registry_ok m" and "\<forall>S. active_connections m sid = Some S \<longrightarrow> ws \<notin> S"
  shows "disconnect ws sid m = m"
proof (cases "active_connections m sid")
  case None
  then show ?thesis by (simp add: disconnect_def)
next
  case (Some S)
  then have "ws \<notin> S" and "S \<noteq> {}"
    using assms by (auto simp add: registry_ok_def)
  then have "S - {ws} = S" by auto
  then show ?thesis
    using Some \<open>S \<noteq> {}\<close> by (simp add: disconnect_def fun_upd_idem)
qed

lemma enumerates_sorted_list_of_set: "enumerates sorted_list_of_set"
  by (simp add: enumerates_def)

lemma broadcast_to_session_delivered:
  assumes "enumerates to_list" and "active_connections m sid = Some S" and "finite S"
  shows "delivered (broadcast_to_session to_list fails msg sid m) d =
           (if d \<in> S \<and> \<not> fails d then delivered m d @ [msg] else delivered m d)"
proof -
  have e: "set (to_list S) = S" "distinct (to_list S)"
    using assms(1,3) by (simp_all add: enumerates_def)
  show ?thesis
    using broadcast_loop_delivered [OF e(2), of fails msg sid m d] assms(2)
    by (simp add: broadcast_to_session_def e(1))
qed

lemma broadcast_to_session_active:
  assumes "enumerates to_list" and "active_connections m sid = Some S" and "finite S"
  shows "active_connections (broadcast_to_session to_list fails msg sid m) sid =
           (if \<exists>c \<in> S. fails c then nonempty (S - {c \<in> S. fails c}) else Some S)"
proof -
  have e: "set (to_list S) = S"
    using assms(1,3) by (simp add: enumerates_def)
  show ?thesis
    using broadcast_loop_active [OF assms(2), of fails msg "to_list S"] assms(2)
    by (simp add: broadcast_to_session_def e)
qed

lemma broadcast_to_session_active_other:
  "sid' \<noteq> sid \<Longrightarrow>
   active_connections (broadcast_to_session to_list fails msg sid m) sid' = active_connections m sid'"
  by (simp add: broadcast_to_session_def broadcast_loop_active_other split: option.splits)

lemma handle_frame_subscribe_lattice:
  assumes "enumerates to_list" and "orchestrators sid = Some oc"
    and "get_lattice_state now oc = Inr lat"
    and "active_connections m sid = Some S" and "finite S"
  shows "\<exists>m'. handle_frame to_list fails now orchestrators ws sid (Some ''subscribe_lattice'') m = Inr m' \<and>
           (\<forall>d. delivered m' d =
              (if d \<in> S \<and> \<not> fails d then delivered m d @ [Lattice_update sid lat now]
               else delivered m d))"
  using assms(2,3) broadcast_to_session_delivered [OF assms(1,4,5), of fails "Lattice_update sid lat now"]
  by (simp add: handle_frame_def send_lattice_update_def)

text \<open>
  Claim C6.  When \<open>broadcast_to_session\<close> is called for a session whose registered set
  \<open>S\<close> contains a connection \<open>c\<close> whose send raises while the sends to all other members
  succeed, every other member receives the message, \<open>c\<close> and the connections outside the
  session receive nothing, the session's set becomes \<open>S\<close> without \<open>c\<close> (the entry is
  deleted when \<open>c\<close> was the only member), and the other sessions are unchanged.  The call
  returns a manager state in every case: the exception of the failed send is caught inside
  the loop.
\<close>

theorem broadcast_one_failure:
  assumes "enumerates to_list" and "active_connections m sid = Some S" and "finite S"
    and "c \<in> S" and "fails c" and "\<forall>d \<in> S. d \<noteq> c \<longrightarrow> \<not> fails d"
  shows "(\<forall>d \<in> S. d \<noteq> c \<longrightarrow>
            delivered (broadcast_to_session to_list fails msg sid m) d = delivered m d @ [msg]) \<and>
         delivered (broadcast_to_session to_list fails msg sid m) c = delivered m c \<and>
         (\<forall>d. d \<notin> S \<longrightarrow> delivered (broadcast_to_session to_list fails msg sid m) d = delivered m d) \<and>
         active_connections (broadcast_to_session to_list fails msg sid m) sid
           = (if S - {c} = {} then None else Some (S - {c})) \<and>
         (\<forall>sid'. sid' \<noteq> sid \<longrightarrow>
            active_connections (broadcast_to_session to_list fails msg sid m) sid'
              = active_connections m sid')"
proof -
  have f: "{x \<in> S. fails x} = {c}"
    using assms(4,5,6) by auto
  have a: "active_connections (broadcast_to_session to_list fails msg sid m) sid = nonempty (S - {c})"
    using broadcast_to_session_active [OF assms(1,2,3), of fails msg] assms(4,5) f by auto
  show ?thesis
    using assms(4,5,6)
    by (simp add: broadcast_to_session_delivered [OF assms(1,2,3)] a nonempty_def
          broadcast_to_session_active_other)
qed

theorem broadcast_one_failure_witness:
  "enumerates sorted_list_of_set \<and>
   active_connections example_manager ''s1'' = Some {1, 2, 3} \<and> finite {1, 2, 3 :: nat} \<and>
   (2 :: nat) \<in> {1, 2, 3} \<and> fails_only 2 2 \<and>
   \<not> fails_only 2 1 \<and> \<not> fails_only 2 3 \<and>
   delivered (broadcast_to_session sorted_list_of_set (fails_only 2) (Pong ''t1'') ''s1'' example_manager) 1
     = [Pong ''t1''] \<and>
   delivered (broadcast_to_session sorted_list_of_set (fails_only 2) (Pong ''t1'') ''s1'' example_manager) 3
     = [Pong ''t1''] \<and>
   delivered (broadcast_to_session sorted_list_of_set (fails_only 2) (Pong ''t1'') ''s1'' example_manager) 2
     = [] \<and>
   active_connections
     (broadcast_to_session sorted_list_of_set (fails_only 2) (Pong ''t1'') ''s1'' example_manager) ''s1''
     = Some {1, 3}"
proof -
  have h2: "active_connections example_manager ''s1'' = Some {1, 2, 3}"
    by (simp add: example_manager_def)
  have h3: "finite {1, 2, 3 :: nat}" by simp
  have h4: "(2 :: nat) \<in> {1, 2, 3}" by simp
  have h5: "fails_only 2 2" by (simp add: fails_only_def)
  have h6: "\<forall>d \<in> {1, 2, 3}. d \<noteq> 2 \<longrightarrow> \<not> fails_only 2 d"
    by (simp add: fails_only_def)
  have d0: "delivered example_manager = (\<lambda>ws. [])"
    by (simp add: example_manager_def)
  from broadcast_one_failure [OF enumerates_sorted_list_of_set h2 h3 h4 h5 h6, of "Pong ''t1''"]
  show ?thesis
    using enumerates_sorted_list_of_set h2 h5 h6 by (auto simp add: d0)
qed

text \<open>
  Claim C10.  After any sequence of connect, disconnect and broadcast operations on a
  new manager, every session id present in \<open>active_connections\<close> is mapped to a non-empty
  set.  \<open>disconnect\<close> deletes the entry of a session whose set becomes empty, and so does
  a broadcast in which the sends to all members of the session fail.  In a state reached by
  such a sequence, \<open>disconnect\<close> of a connection that is not registered under the session
  leaves the manager unchanged.
\<close>

theorem registry_sessions_nonempty:
  "(\<forall>sid S. active_connections (apply_ops to_list ops init_manager) sid = Some S \<longrightarrow> S \<noteq> {}) \<and>
   (active_connections m sid = Some S \<and> S - {ws} = {} \<longrightarrow>
      active_connections (disconnect ws sid m) sid = None) \<and>
   (enumerates to_list \<and> active_connections m sid = Some S \<and> finite S \<and> S \<noteq> {} \<and>
    (\<forall>d \<in> S. fails d) \<longrightarrow>
      active_connections (broadcast_to_session to_list fails msg sid m) sid = None) \<and>
   ((\<forall>T. active_connections (apply_ops to_list ops init_manager) sid = Some T \<longrightarrow> ws \<notin> T) \<longrightarrow>
      disconnect ws sid (apply_ops to_list ops init_manager) = apply_ops to_list ops init_manager)"
proof -
  have ok: "registry_ok (apply_ops to_list ops init_manager)"
    using registry_ok_init by (rule registry_ok_apply_ops)
  have a: "\<forall>sid S. active_connections (apply_ops to_list ops init_manager) sid = Some S \<longrightarrow> S \<noteq> {}"
    using ok unfolding registry_ok_def by blast
  have b: "active_connections (disconnect ws sid m) sid = None"
    if "active_connections m sid = Some S \<and> S - {ws} = {}"
    using that by (simp add: active_disconnect nonempty_def)
  have c: "active_connections (broadcast_to_session to_list fails msg sid m) sid = None"
    if h: "enumerates to_list \<and> active_connections m sid = Some S \<and> finite S \<and> S \<noteq> {} \<and>
        (\<forall>d \<in> S. fails d)"
  proof -
    from h have e: "S - {c \<in> S. fails c} = {}" by auto
    from h have "\<exists>c \<in> S. fails c" by auto
    then show ?thesis
      using h broadcast_to_session_active [of to_list m sid S fails msg] e
      by (simp add: nonempty_def)
  qed
  have d: "disconnect ws sid (apply_ops to_list ops init_manager) = apply_ops to_list ops init_manager"
    if "\<forall>T. active_connections (apply_ops to_list ops init_manager) sid = Some T \<longrightarrow> ws \<notin> T"
    using ok that by (rule disconnect_unregistered)
  show ?thesis
    using a b c d by blast
qed

theorem registry_sessions_nonempty_witness:
  "active_connections
     (apply_ops sorted_list_of_set
        [Connect True 1 ''s1'', Connect True 2 ''s1'', Connect False 3 ''s2'', Disconnect 1 ''s1'']
        init_manager) ''s1'' = Some {2} \<and>
   active_connections
     (apply_ops sorted_list_of_set
        [Connect True 1 ''s1'', Connect True 2 ''s1'', Connect False 3 ''s2'', Disconnect 1 ''s1'']
        init_manager) ''s2'' = None \<and>
   {2 :: nat} \<noteq> {} \<and>
   active_connections two_clients ''s1'' = Some {1, 2} \<and>
   active_connections (disconnect 1 ''s1'' two_clients) ''s1'' = Some {2} \<and> {2} - {2 :: nat} = {} \<and>
   active_connections (disconnect 2 ''s1'' (disconnect 1 ''s1'' two_clients)) ''s1'' = None \<and>
   enumerates sorted_list_of_set \<and> finite {1, 2 :: nat} \<and> fails_all 1 \<and> fails_all 2 \<and>
   active_connections
     (broadcast_to_session sorted_list_of_set fails_all (Pong ''t1'') ''s1'' two_clients) ''s1'' = None \<and>
   disconnect 7 ''s1''
     (apply_ops sorted_list_of_set
        [Connect True 1 ''s1'', Connect True 2 ''s1'', Connect False 3 ''s2'', Disconnect 1 ''s1'']
        init_manager)
     = apply_ops sorted_list_of_set
        [Connect True 1 ''s1'', Connect True 2 ''s1'', Connect False 3 ''s2'', Disconnect 1 ''s1'']
        init_manager"
proof -
  let ?ops = "[Connect True 1 ''s1'', Connect True 2 ''s1'', Connect False 3 ''s2'', Disconnect 1 ''s1'']"
  let ?m = "apply_ops sorted_list_of_set ?ops init_manager"
  have s1: "active_connections ?m ''s1'' = Some {2}"
    by (auto simp add: apply_ops_def init_manager_def connect_def disconnect_def Let_def)
  have s2: "active_connections ?m ''s2'' = None"
    by (auto simp add: apply_ops_def init_manager_def connect_def disconnect_def Let_def)
  have t: "active_connections two_clients ''s1'' = Some {1, 2}"
    by (simp add: two_clients_def)
  have d1: "active_connections (disconnect 1 ''s1'' two_clients) ''s1'' = Some {2}"
    by (auto simp add: two_clients_def disconnect_def)
  have fa: "\<forall>d \<in> {1, 2 :: nat}. fails_all d"
    by (simp add: fails_all_def)
  have un: "\<forall>T. active_connections ?m ''s1'' = Some T \<longrightarrow> 7 \<notin> T"
    using s1 by simp
  note thm1 = registry_sessions_nonempty [of sorted_list_of_set ?ops "disconnect 1 ''s1'' two_clients"
      "''s1''" "{2}" 2 fails_all "Pong ''t1''"]
  note thm2 = registry_sessions_nonempty [of sorted_list_of_set ?ops two_clients
      "''s1''" "{1, 2}" 7 fails_all "Pong ''t1''"]
  have r1: "active_connections (disconnect 2 ''s1'' (disconnect 1 ''s1'' two_clients)) ''s1'' = None"
    using thm1 d1 by simp
  have r2: "active_connections
     (broadcast_to_session sorted_list_of_set fails_all (Pong ''t1'') ''s1'' two_clients) ''s1'' = None"
    using thm2 t fa enumerates_sorted_list_of_set by simp
  have r3: "disconnect 7 ''s1'' ?m = ?m"
    using thm2 un by blast
  show ?thesis
    using s1 s2 t d1 r1 r2 r3 fa enumerates_sorted_list_of_set by simp
qed

lemma example_lattice_state:
  "get_lattice_state now example_orchestrator = Inr (projr (get_lattice_state now example_orchestrator))"
proof -
  have "coherence_of example_orchestrator = 0"
    by (simp add: coherence_of_unfold example_orchestrator_def init_orchestrator_def init_agent_def
          fl_add_def fl_div_def round_double_def)
  then obtain lat where "get_lattice_state now example_orchestrator = Inr lat"
    using get_lattice_state_ok [of example_orchestrator now] by auto
  then show ?thesis by simp
qed

text \<open>
  Claim C1 as stated fails: with the connections 1 and 2 registered for the session and
  connection 1 sending \<open>subscribe_lattice\<close>, connection 2, which did not ask, is sent a
  lattice update as well, so two frames are sent, not one.
\<close>

theorem subscribe_lattice_counterexample:
  "frames_sent_to 2 (Inr two_clients) = [] \<and>
   frames_sent_to 2
     (handle_frame sorted_list_of_set no_failure ''t2'' [''s1'' \<mapsto> example_orchestrator] 1 ''s1''
        (Some ''subscribe_lattice'') two_clients) = [''lattice_update''] \<and>
   frames_sent_to 1
     (handle_frame sorted_list_of_set no_failure ''t2'' [''s1'' \<mapsto> example_orchestrator] 1 ''s1''
        (Some ''subscribe_lattice'') two_clients) = [''lattice_update''] \<and>
   (2 :: websocket) \<noteq> 1"
proof -
  have o: "[''s1'' \<mapsto> example_orchestrator] ''s1'' = Some example_orchestrator"
    by simp
  have a: "active_connections two_clients ''s1'' = Some {1, 2}"
    by (simp add: two_clients_def)
  have f: "finite {1, 2 :: nat}" by simp
  from handle_frame_subscribe_lattice [where to_list = sorted_list_of_set
      and orchestrators = "[''s1'' \<mapsto> example_orchestrator]" and sid = "''s1''"
      and oc = example_orchestrator and now = "''t2''" and m = two_clients and S = "{1, 2}"
      and fails = no_failure and ws = 1,
      OF enumerates_sorted_list_of_set o example_lattice_state a f]
  obtain m' where m': "handle_frame sorted_list_of_set no_failure ''t2'' [''s1'' \<mapsto> example_orchestrator]
        1 ''s1'' (Some ''subscribe_lattice'') two_clients = Inr m'"
    and d: "\<forall>d. delivered m' d =
              (if d \<in> {1, 2} \<and> \<not> no_failure d
               then delivered two_clients d @
                    [Lattice_update ''s1'' (projr (get_lattice_state ''t2'' example_orchestrator)) ''t2'']
               else delivered two_clients d)"
    by blast
  have d0: "delivered two_clients = (\<lambda>ws. [])"
    by (simp add: two_clients_def)
  show ?thesis
    unfolding m' by (simp add: frames_sent_to_def d d0 no_failure_def)
qed

text \<open>
  Claim C1, amended.  When a connected client sends a frame of type \<open>subscribe_lattice\<close>
  for a session whose orchestrator exists and whose lattice state is computed, the lattice
  update is broadcast to the session: every connection registered for the session whose
  send succeeds (the requester among them when it is registered) is sent exactly one
  lattice-update frame, and no other connection is sent anything.
\<close>

theorem subscribe_lattice_is_broadcast:
  assumes "enumerates to_list" and "orchestrators sid = Some oc"
    and "get_lattice_state now oc = Inr lat"
    and "active_connections m sid = Some S" and "finite S"
  shows "\<exists>m'. handle_frame to_list fails now orchestrators ws sid (Some ''subscribe_lattice'') m = Inr m' \<and>
           (\<forall>d. delivered m' d =
              (if d \<in> S \<and> \<not> fails d then delivered m d @ [Lattice_update sid lat now]
               else delivered m d))"
  using assms by (rule handle_frame_subscribe_lattice)

theorem subscribe_lattice_is_broadcast_witness:
  "enumerates sorted_list_of_set \<and>
   [''s1'' \<mapsto> example_orchestrator] ''s1'' = Some example_orchestrator \<and>
   get_lattice_state ''t2'' example_orchestrator
     = Inr (projr (get_lattice_state ''t2'' example_orchestrator)) \<and>
   active_connections example_manager ''s1'' = Some {1, 2, 3} \<and> finite {1, 2, 3 :: nat} \<and>
   frames_sent_to 1
     (handle_frame sorted_list_of_set (fails_only 3) ''t2'' [''s1'' \<mapsto> example_orchestrator] 1 ''s1''
        (Some ''subscribe_lattice'') example_manager) = [''lattice_update''] \<and>
   frames_sent_to 2
     (handle_frame sorted_list_of_set (fails_only 3) ''t2'' [''s1'' \<mapsto> example_orchestrator] 1 ''s1''
        (Some ''subscribe_lattice'') example_manager) = [''lattice_update''] \<and>
   frames_sent_to 3
     (handle_frame sorted_list_of_set (fails_only 3) ''t2'' [''s1'' \<mapsto> example_orchestrator] 1 ''s1''
        (Some ''subscribe_lattice'') example_manager) = [] \<and>
   frames_sent_to 4
     (handle_frame sorted_list_of_set (fails_only 3) ''t2'' [''s1'' \<mapsto> example_orchestrator] 1 ''s1''
        (Some ''subscribe_lattice'') example_manager) = []"
proof -
  have o: "[''s1'' \<mapsto> example_orchestrator] ''s1'' = Some example_orchestrator"
    by simp
  have a: "active_connections example_manager ''s1'' = Some {1, 2, 3}"
    by (simp add: example_manager_def)
  have f: "finite {1, 2, 3 :: nat}" by simp
  from subscribe_lattice_is_broadcast [where to_list = sorted_list_of_set
      and orchestrators = "[''s1'' \<mapsto> example_orchestrator]" and sid = "''s1''"
      and oc = example_orchestrator and now = "''t2''" and m = example_manager and S = "{1, 2, 3}"
      and fails = "fails_only 3" and ws = 1,
      OF enumerates_sorted_list_of_set o example_lattice_state a f]
  obtain m' where m': "handle_frame sorted_list_of_set (fails_only 3) ''t2''
        [''s1'' \<mapsto> example_orchestrator] 1 ''s1'' (Some ''subscribe_lattice'') example_manager = Inr m'"
    and d: "\<forall>d. delivered m' d =
              (if d \<in> {1, 2, 3} \<and> \<not> fails_only 3 d
               then delivered example_manager d @
                    [Lattice_update ''s1'' (projr (get_lattice_state ''t2'' example_orchestrator)) ''t2'']
               else delivered example_manager d)"
    by blast
  have d0: "delivered example_manager = (\<lambda>ws. [])"
    by (simp add: example_manager_def)
  show ?thesis
    unfolding m'
    using enumerates_sorted_list_of_set a example_lattice_state [of "''t2''"]
    by (simp add: frames_sent_to_def d d0 fails_only_def)
qed

end
